theory Spec2Isabelle
  imports Main "HOL-Library.Word"
begin

unbundle bit_operations_syntax

section \<open>Machine model\<close>

type_synonym u8 = "8 word"
type_synonym u16 = "16 word"
type_synonym u32 = "32 word"

text \<open>
  Routines of other packages (the ARM CPU support, the RNGB driver) whose bodies are not
  part of the sources under study. A call is recorded in the trace and may change the
  hardware in a way the device decides.
\<close>

datatype ext_call =
    ARM_Init
  | ARM_EnableVFP
  | ARM_CacheEnable
  | ARM_InitGlobalTimers
  | ARM_InitGenericTimers u32 int
  | RNGB_Init

text \<open>Every access the program makes to the outside, in program order.\<close>

datatype event =
    Load32 u32 u32    \<comment> \<open>32-bit load: address, value the hardware returned\<close>
  | Store32 u32 u32   \<comment> \<open>32-bit store: address, value\<close>
  | Store16 u32 u16   \<comment> \<open>16-bit store: address, value\<close>
  | Extern ext_call

text \<open>
  Memory-mapped hardware is volatile: a load may change the device (a receive FIFO pops),
  and what a load returns need not be what was stored. A device is any such behaviour
  over a state type \<open>'h\<close>.
\<close>

record 'h device =
  load32 :: "'h \<Rightarrow> u32 \<Rightarrow> u32 \<times> 'h"
  store32 :: "'h \<Rightarrow> u32 \<Rightarrow> u32 \<Rightarrow> 'h"
  store16 :: "'h \<Rightarrow> u32 \<Rightarrow> u16 \<Rightarrow> 'h"
  extern :: "'h \<Rightarrow> ext_call \<Rightarrow> 'h"

record 'h machine =
  regs :: 'h
  trace :: "event list"

definition call_ext :: "'h device \<Rightarrow> ext_call \<Rightarrow> 'h machine \<Rightarrow> 'h machine" where
  "call_ext d c m = m\<lparr>regs := extern d (regs m) c, trace := trace m @ [Extern c]\<rparr>"

text \<open>A Go run-time panic. Unsigned division panics on a zero divisor.\<close>

datatype panic = DivideByZero

definition udiv32 :: "u32 \<Rightarrow> u32 \<Rightarrow> panic + u32" where
  "udiv32 a b = (if b = 0 then Inl DivideByZero else Inr (a div b))"

section \<open>Register access primitives (package internal/reg, internal/bits)\<close>

definition reg_Read :: "'h device \<Rightarrow> u32 \<Rightarrow> 'h machine \<Rightarrow> u32 \<times> 'h machine" where
  \<comment> \<open>Modelled from the spec: package internal/reg is not among the sources;
      \<open>read(addr) -> word\<close>, a direct uncached access.\<close>
  "reg_Read d addr m =
     (let (v, h) = load32 d (regs m) addr
      in (v, m\<lparr>regs := h, trace := trace m @ [Load32 addr v]\<rparr>))"

definition reg_Write :: "'h device \<Rightarrow> u32 \<Rightarrow> u32 \<Rightarrow> 'h machine \<Rightarrow> 'h machine" where
  \<comment> \<open>Modelled from the spec: package internal/reg is not among the sources;
      \<open>write(addr, word)\<close>.\<close>
  "reg_Write d addr v m =
     m\<lparr>regs := store32 d (regs m) addr v, trace := trace m @ [Store32 addr v]\<rparr>"

definition reg_Write16 :: "'h device \<Rightarrow> u32 \<Rightarrow> u16 \<Rightarrow> 'h machine \<Rightarrow> 'h machine" where
  \<comment> \<open>Modelled from the spec: package internal/reg is not among the sources;
      the write of a 16-bit register with an access of exactly that width.\<close>
  "reg_Write16 d addr v m =
     m\<lparr>regs := store16 d (regs m) addr v, trace := trace m @ [Store16 addr v]\<rparr>"

definition reg_Get :: "'h device \<Rightarrow> u32 \<Rightarrow> nat \<Rightarrow> u32 \<Rightarrow> 'h machine \<Rightarrow> u32 \<times> 'h machine" where
  \<comment> \<open>Modelled from the spec: package internal/reg is not among the sources;
      \<open>get(addr, bitOffset, mask) -> value\<close>, the field at \<open>bitOffset\<close> under \<open>mask\<close>.\<close>
  "reg_Get d addr pos msk m =
     (let (v, m') = reg_Read d addr m in (drop_bit pos v AND msk, m'))"

definition reg_Set :: "'h device \<Rightarrow> u32 \<Rightarrow> nat \<Rightarrow> 'h machine \<Rightarrow> 'h machine" where
  \<comment> \<open>Modelled from the spec: package internal/reg is not among the sources;
      \<open>set(addr, bitOffset)\<close>, a read-modify-write.\<close>
  "reg_Set d addr pos m =
     (let (v, m') = reg_Read d addr m in reg_Write d addr (v OR push_bit pos 1) m')"

definition reg_Clear :: "'h device \<Rightarrow> u32 \<Rightarrow> nat \<Rightarrow> 'h machine \<Rightarrow> 'h machine" where
  \<comment> \<open>Modelled from the spec: package internal/reg is not among the sources;
      \<open>clear(addr, bitOffset)\<close>, a read-modify-write.\<close>
  "reg_Clear d addr pos m =
     (let (v, m') = reg_Read d addr m in reg_Write d addr (v AND NOT (push_bit pos 1)) m')"

definition reg_SetN :: "'h device \<Rightarrow> u32 \<Rightarrow> nat \<Rightarrow> u32 \<Rightarrow> u32 \<Rightarrow> 'h machine \<Rightarrow> 'h machine" where
  \<comment> \<open>Modelled from the spec: package internal/reg is not among the sources;
      \<open>setField(addr, bitOffset, mask, value)\<close>, a read-modify-write.\<close>
  "reg_SetN d addr pos msk val m =
     (let (v, m') = reg_Read d addr m
      in reg_Write d addr ((v AND NOT (push_bit pos msk)) OR push_bit pos val) m')"

partial_function (option) reg_Wait ::
  "'h device \<Rightarrow> u32 \<Rightarrow> nat \<Rightarrow> u32 \<Rightarrow> u32 \<Rightarrow> 'h machine \<Rightarrow> 'h machine option" where
  \<comment> \<open>Modelled from the spec: package internal/reg is not among the sources;
      \<open>waitUntil(addr, bitOffset, mask, expected)\<close> busy-polls with no timeout, so a
      condition the hardware never meets is \<open>None\<close>.\<close>
  "reg_Wait d addr pos msk val m =
     (case reg_Get d addr pos msk m of
        (v, m') \<Rightarrow> if v \<noteq> val then reg_Wait d addr pos msk val m' else Some m')"

definition bits_Set :: "u32 \<Rightarrow> nat \<Rightarrow> u32" where
  \<comment> \<open>Modelled from the spec: package internal/bits is not among the sources;
      \<open>set\<close> on a local word.\<close>
  "bits_Set x pos = x OR push_bit pos 1"

definition bits_SetN :: "u32 \<Rightarrow> nat \<Rightarrow> u32 \<Rightarrow> u32 \<Rightarrow> u32" where
  \<comment> \<open>Modelled from the spec: package internal/bits is not among the sources;
      \<open>setField\<close> on a local word.\<close>
  "bits_SetN x pos msk val = (x AND NOT (push_bit pos msk)) OR push_bit pos val"

section \<open>UART driver (imx6/uart.go)\<close>

definition UART_DEFAULT_BAUDRATE :: u32 where [simp]: "UART_DEFAULT_BAUDRATE = 115200"
definition ESC :: u32 where [simp]: "ESC = 0x1b"
definition UART2_BASE :: u32 where [simp]: "UART2_BASE = 0x021e8000"

definition UARTx_URXD :: u32 where [simp]: "UARTx_URXD = 0x0000"
definition URXD_PRERR :: nat where [simp]: "URXD_PRERR = 10"
definition URXD_RX_DATA :: nat where [simp]: "URXD_RX_DATA = 0"
definition UARTx_UTXD :: u32 where [simp]: "UARTx_UTXD = 0x0040"
definition UARTx_UCR1 :: u32 where [simp]: "UARTx_UCR1 = 0x0080"
definition UCR1_UARTEN :: nat where [simp]: "UCR1_UARTEN = 0"
definition UARTx_UCR2 :: u32 where [simp]: "UARTx_UCR2 = 0x0084"
definition UCR2_IRTS :: nat where [simp]: "UCR2_IRTS = 14"
definition UCR2_WS :: nat where [simp]: "UCR2_WS = 5"
definition UCR2_TXEN :: nat where [simp]: "UCR2_TXEN = 2"
definition UCR2_RXEN :: nat where [simp]: "UCR2_RXEN = 1"
definition UCR2_SRST :: nat where [simp]: "UCR2_SRST = 0"
definition UARTx_UCR3 :: u32 where [simp]: "UARTx_UCR3 = 0x0088"
definition UCR3_DSR :: nat where [simp]: "UCR3_DSR = 10"
definition UCR3_DCD :: nat where [simp]: "UCR3_DCD = 9"
definition UCR3_RI :: nat where [simp]: "UCR3_RI = 8"
definition UCR3_ADNIMP :: nat where [simp]: "UCR3_ADNIMP = 7"
definition UCR3_RXDMUXSEL :: nat where [simp]: "UCR3_RXDMUXSEL = 2"
definition UARTx_UCR4 :: u32 where [simp]: "UARTx_UCR4 = 0x008c"
definition UCR4_CTSTL :: nat where [simp]: "UCR4_CTSTL = 10"
definition UARTx_UFCR :: u32 where [simp]: "UARTx_UFCR = 0x0090"
definition UFCR_TXTL :: nat where [simp]: "UFCR_TXTL = 10"
definition UFCR_RFDIV :: nat where [simp]: "UFCR_RFDIV = 7"
definition UFCR_RXTL :: nat where [simp]: "UFCR_RXTL = 0"
definition UARTx_USR2 :: u32 where [simp]: "UARTx_USR2 = 0x0098"
definition USR2_RDR :: nat where [simp]: "USR2_RDR = 0"
definition UARTx_UESC :: u32 where [simp]: "UARTx_UESC = 0x009c"
definition UARTx_UTIM :: u32 where [simp]: "UARTx_UTIM = 0x00a0"
definition UARTx_UBIR :: u32 where [simp]: "UARTx_UBIR = 0x00a4"
definition UARTx_UBMR :: u32 where [simp]: "UARTx_UBMR = 0x00a8"
definition UARTx_UTS :: u32 where [simp]: "UARTx_UTS = 0x00b4"
definition UTS_TXEMPTY :: nat where [simp]: "UTS_TXEMPTY = 6"

text \<open>
  The struct \<open>Uart\<close>: the embedded \<open>sync.Mutex\<close> is the flag \<open>mu\<close> (held or not),
  the other fields are the absolute register addresses.
\<close>

record Uart =
  mu :: bool
  urxd :: u32
  utxd :: u32
  ucr1 :: u32
  ucr2 :: u32
  ucr3 :: u32
  ucr4 :: u32
  ufcr :: u32
  usr2 :: u32
  uesc :: u32
  utim :: u32
  ubir :: u32
  ubmr :: u32
  uts :: u32

text \<open>
  The clock constants \<open>uartclk\<close> uses are declared in a file that is not among the
  sources; they are parameters of the model.
\<close>

record clock_consts =
  CCM_CSCDR1 :: u32
  CSCDR1_UART_CLK_SEL :: nat
  CSCDR1_CLK_PODF :: nat
  OSC_FREQ :: u32
  VCO_FREQ :: u32

definition uartclk :: "'h device \<Rightarrow> clock_consts \<Rightarrow> 'h machine \<Rightarrow> (panic + u32) \<times> 'h machine" where
  "uartclk d k m =
     (let (sel, m) = reg_Get d (CCM_CSCDR1 k) (CSCDR1_UART_CLK_SEL k) 0b1 m;
          freq = (if sel = 1 then OSC_FREQ k else VCO_FREQ k);
          (podf, m) = reg_Get d (CCM_CSCDR1 k) (CSCDR1_CLK_PODF k) 0b111111 m
      in (udiv32 freq (podf + 1), m))"

definition txEmpty :: "'h device \<Rightarrow> Uart \<Rightarrow> 'h machine \<Rightarrow> bool \<times> 'h machine" where
  "txEmpty d hw m = (let (v, m) = reg_Get d (uts hw) UTS_TXEMPTY 1 m in (v = 0, m))"

definition rxReady :: "'h device \<Rightarrow> Uart \<Rightarrow> 'h machine \<Rightarrow> bool \<times> 'h machine" where
  "rxReady d hw m = (let (v, m) = reg_Get d (usr2 hw) USR2_RDR 1 m in (v = 1, m))"

definition rxError :: "'h device \<Rightarrow> Uart \<Rightarrow> 'h machine \<Rightarrow> bool \<times> 'h machine" where
  "rxError d hw m = (let (v, m) = reg_Get d (urxd hw) URXD_PRERR 0b11111 m in (v \<noteq> 0, m))"

text \<open>
  \<open>Init\<close> takes the mutex, so on a held mutex it never returns (the model is
  sequential: nobody else releases it). It returns \<open>None\<close> too when the wait for the
  software reset never ends, and panics when a division has a zero divisor.
\<close>

definition Init ::
  "'h device \<Rightarrow> clock_consts \<Rightarrow> Uart \<Rightarrow> u32 \<Rightarrow> 'h machine \<Rightarrow> (panic + Uart \<times> 'h machine) option" where
  "Init d k hw baudrate m =
     (if mu hw then None
      else
        let hw = hw\<lparr>mu := True\<rparr>;
            m = reg_Write d (ucr1 hw) 0 m;
            m = reg_Write d (ucr2 hw) 0 m
        in case reg_Wait d (ucr2 hw) UCR2_SRST 1 1 m of
             None \<Rightarrow> None
           | Some m \<Rightarrow>
              (let ucr3' = 0;
                   ucr3' = bits_Set ucr3' UCR3_DSR;
                   ucr3' = bits_Set ucr3' UCR3_DCD;
                   ucr3' = bits_Set ucr3' UCR3_RI;
                   ucr3' = bits_Set ucr3' UCR3_ADNIMP;
                   ucr3' = bits_Set ucr3' UCR3_RXDMUXSEL;
                   m = reg_Write d (Uart.ucr3 hw) ucr3' m;
                   m = reg_SetN d (ucr4 hw) UCR4_CTSTL 0b111111 32 m;
                   m = reg_Write d (uesc hw) ESC m;
                   m = reg_Write d (utim hw) 0 m;
                   ufcr' = 0;
                   ufcr' = bits_SetN ufcr' UFCR_RFDIV 0b111 0b100;
                   ufcr' = bits_SetN ufcr' UFCR_TXTL 0b111111 2;
                   ufcr' = bits_SetN ufcr' UFCR_RXTL 0b111111 1;
                   m = reg_Write d (Uart.ufcr hw) ufcr' m;
                   (r, m) = uartclk d k m
               in case r of
                    Inl p \<Rightarrow> Some (Inl p)
                  | Inr f \<Rightarrow>
                     (case udiv32 f 6 of
                        Inl p \<Rightarrow> Some (Inl p)
                      | Inr clk \<Rightarrow>
                         (case udiv32 clk (2 * baudrate) of
                            Inl p \<Rightarrow> Some (Inl p)
                          | Inr ubmr' \<Rightarrow>
                             (let m = reg_Write d (ubir hw) 15 m;
                                  m = reg_Write d (Uart.ubmr hw) ubmr' m;
                                  ucr2' = 0;
                                  ucr2' = bits_Set ucr2' UCR2_IRTS;
                                  ucr2' = bits_Set ucr2' UCR2_WS;
                                  ucr2' = bits_Set ucr2' UCR2_TXEN;
                                  ucr2' = bits_Set ucr2' UCR2_RXEN;
                                  ucr2' = bits_Set ucr2' UCR2_SRST;
                                  m = reg_Write d (Uart.ucr2 hw) ucr2' m;
                                  m = reg_Set d (ucr1 hw) UCR1_UARTEN m;
                                  hw = hw\<lparr>mu := False\<rparr>
                              in Some (Inr (hw, m)))))))"

definition init ::
  "'h device \<Rightarrow> clock_consts \<Rightarrow> Uart \<Rightarrow> u32 \<Rightarrow> u32 \<Rightarrow> 'h machine \<Rightarrow> (panic + Uart \<times> 'h machine) option" where
  "init d k hw base baudrate m =
     (let hw = hw\<lparr>urxd := base + UARTx_URXD\<rparr>;
          hw = hw\<lparr>utxd := base + UARTx_UTXD\<rparr>;
          hw = hw\<lparr>ucr1 := base + UARTx_UCR1\<rparr>;
          hw = hw\<lparr>ucr2 := base + UARTx_UCR2\<rparr>;
          hw = hw\<lparr>ucr3 := base + UARTx_UCR3\<rparr>;
          hw = hw\<lparr>ucr4 := base + UARTx_UCR4\<rparr>;
          hw = hw\<lparr>ufcr := base + UARTx_UFCR\<rparr>;
          hw = hw\<lparr>usr2 := base + UARTx_USR2\<rparr>;
          hw = hw\<lparr>uesc := base + UARTx_UESC\<rparr>;
          hw = hw\<lparr>utim := base + UARTx_UTIM\<rparr>;
          hw = hw\<lparr>ubir := base + UARTx_UBIR\<rparr>;
          hw = hw\<lparr>ubmr := base + UARTx_UBMR\<rparr>;
          hw = hw\<lparr>uts := base + UARTx_UTS\<rparr>
      in Init d k hw baudrate m)"

text \<open>The loop \<open>for hw.txEmpty() { }\<close> of \<open>Write\<close>; \<open>None\<close> when it never ends.\<close>

partial_function (option) Write_poll :: "'h device \<Rightarrow> Uart \<Rightarrow> 'h machine \<Rightarrow> 'h machine option" where
  "Write_poll d hw m =
     (case txEmpty d hw m of (b, m') \<Rightarrow> if b then Write_poll d hw m' else Some m')"

definition Write :: "'h device \<Rightarrow> Uart \<Rightarrow> u8 \<Rightarrow> 'h machine \<Rightarrow> 'h machine option" where
  "Write d hw c m = Write_poll d hw (reg_Write d (utxd hw) (ucast c) m)"

definition Read :: "'h device \<Rightarrow> Uart \<Rightarrow> 'h machine \<Rightarrow> (u8 \<times> bool) \<times> 'h machine" where
  "Read d hw m =
     (let (ready, m) = rxReady d hw m
      in if \<not> ready then ((0, False), m)
         else
           let (err, m) = rxError d hw m
           in if err then ((0, False), m)
              else
                let (v, m) = reg_Get d (urxd hw) URXD_RX_DATA 0xff m
                in ((ucast v, True), m))"

text \<open>
  To speak about the loop of \<open>Write\<close>: the machine after \<open>n\<close> evaluations of
  \<open>hw.txEmpty()\<close>, and the value of the status register UTS that evaluation number
  \<open>n\<close> (counted from 0) loads.
\<close>

fun Write_polls :: "'h device \<Rightarrow> Uart \<Rightarrow> nat \<Rightarrow> 'h machine \<Rightarrow> 'h machine" where
  "Write_polls d hw 0 m = m"
| "Write_polls d hw (Suc n) m = Write_polls d hw n (snd (txEmpty d hw m))"

definition uts_value :: "'h device \<Rightarrow> Uart \<Rightarrow> nat \<Rightarrow> 'h machine \<Rightarrow> u32" where
  "uts_value d hw n m = fst (load32 d (regs (Write_polls d hw n m)) (uts hw))"

section \<open>SoC support (package imx6)\<close>

definition WDOG1_WCR :: u32 where [simp]: "WDOG1_WCR = 0x020bc000"
definition USB_ANALOG_DIGPROG :: u32 where [simp]: "USB_ANALOG_DIGPROG = 0x020c8260"
definition SRC_SCR :: u32 where [simp]: "SRC_SCR = 0x020d8000"
definition SCR_WARM_RESET_ENABLE :: nat where [simp]: "SCR_WARM_RESET_ENABLE = 0"
definition SYS_CNT_BASE :: u32 where [simp]: "SYS_CNT_BASE = 0x021dc000"
definition IMX6Q :: u32 where [simp]: "IMX6Q = 0x63"
definition IMX6UL :: u32 where [simp]: "IMX6UL = 0x64"
definition IMX6ULL :: u32 where [simp]: "IMX6ULL = 0x65"

text \<open>
  What the function variable \<open>getRandomDataFn\<close> can hold: nothing yet (\<open>nil\<close>), the
  accessor of the hardware generator, or the software generator.
\<close>

datatype random_fn = Unbound | RNGB_getRandomData | getLCGData

text \<open>The package-level variables; \<open>globals0\<close> is their state at program start.\<close>

record globals =
  Family :: u32
  Native :: bool
  UART2 :: Uart
  getRandomDataFn :: random_fn

definition globals0 :: globals where
  "globals0 =
     \<lparr>Family = 0, Native = False,
      UART2 = \<lparr>mu = False, urxd = 0, utxd = 0, ucr1 = 0, ucr2 = 0, ucr3 = 0, ucr4 = 0,
               ufcr = 0, usr2 = 0, uesc = 0, utim = 0, ubir = 0, ubmr = 0, uts = 0\<rparr>,
      getRandomDataFn = Unbound\<rparr>"

definition SiliconVersion :: "'h device \<Rightarrow> 'h machine \<Rightarrow> (u32 \<times> u32 \<times> u32 \<times> u32) \<times> 'h machine" where
  "SiliconVersion d m =
     (let (sv, m) = reg_Read d USB_ANALOG_DIGPROG m;
          family = drop_bit 16 sv AND 0xff;
          revMajor = drop_bit 8 sv AND 0xff;
          revMinor = sv AND 0xff
      in ((sv, family, revMajor, revMinor), m))"

definition hwinit ::
  "'h device \<Rightarrow> clock_consts \<Rightarrow> globals \<Rightarrow> 'h machine \<Rightarrow> (panic + globals \<times> 'h machine) option" where
  "hwinit d k g m =
     (let m = call_ext d ARM_Init m;
          m = call_ext d ARM_EnableVFP m;
          m = call_ext d ARM_CacheEnable m;
          ((sv, fam, revMajor, revMinor), m) = SiliconVersion d m;
          g = g\<lparr>Family := fam\<rparr>;
          g = (if revMajor \<noteq> 0 \<or> revMinor \<noteq> 0 then g\<lparr>Native := True\<rparr> else g)
      in case init d k (UART2 g) UART2_BASE UART_DEFAULT_BAUDRATE m of
           None \<Rightarrow> None
         | Some (Inl p) \<Rightarrow> Some (Inl p)
         | Some (Inr (hw, m)) \<Rightarrow>
            (let g = g\<lparr>UART2 := hw\<rparr>;
                 m = (if Family g = IMX6Q then call_ext d ARM_InitGlobalTimers m
                      else if Family g = IMX6UL \<or> Family g = IMX6ULL then
                        (if \<not> Native g
                         then call_ext d (ARM_InitGenericTimers SYS_CNT_BASE 62500000) m
                         else call_ext d (ARM_InitGenericTimers SYS_CNT_BASE 8000000) m)
                      else call_ext d ARM_InitGlobalTimers m)
             in Some (Inr (g, m))))"

definition initRNG :: "'h device \<Rightarrow> globals \<Rightarrow> 'h machine \<Rightarrow> globals \<times> 'h machine" where
  "initRNG d g m =
     (if Family g = IMX6ULL \<and> Native g
      then (let m = call_ext d RNGB_Init m in (g\<lparr>getRandomDataFn := RNGB_getRandomData\<rparr>, m))
      else (g\<lparr>getRandomDataFn := getLCGData\<rparr>, m))"

definition Model :: "globals \<Rightarrow> string" where
  "Model g =
     (if Family g = IMX6Q then ''i.MX6Q''
      else if Family g = IMX6UL then ''i.MX6UL''
      else if Family g = IMX6ULL then ''i.MX6ULL''
      else ''unknown'')"

definition Reboot :: "'h device \<Rightarrow> 'h machine \<Rightarrow> 'h machine" where
  "Reboot d m =
     (let m = reg_Clear d SRC_SCR SCR_WARM_RESET_ENABLE m
      in reg_Write16 d WDOG1_WCR 0 m)"

section \<open>Concrete devices\<close>

text \<open>
  A mock register backend: little-endian byte-addressed memory, where a load returns what
  was stored last and changes nothing.
\<close>

type_synonym ram = "u32 \<Rightarrow> u8"

definition ram_load16 :: "ram \<Rightarrow> u32 \<Rightarrow> u16" where
  "ram_load16 h a = ucast (h a) OR push_bit 8 (ucast (h (a + 1)))"

definition ram_load32 :: "ram \<Rightarrow> u32 \<Rightarrow> u32" where
  "ram_load32 h a =
     ucast (h a) OR push_bit 8 (ucast (h (a + 1))) OR
     push_bit 16 (ucast (h (a + 2))) OR push_bit 24 (ucast (h (a + 3)))"

definition ram_store16 :: "ram \<Rightarrow> u32 \<Rightarrow> u16 \<Rightarrow> ram" where
  "ram_store16 h a v = h(a := ucast v, a + 1 := ucast (drop_bit 8 v))"

definition ram_store32 :: "ram \<Rightarrow> u32 \<Rightarrow> u32 \<Rightarrow> ram" where
  "ram_store32 h a v =
     h(a := ucast v, a + 1 := ucast (drop_bit 8 v),
       a + 2 := ucast (drop_bit 16 v), a + 3 := ucast (drop_bit 24 v))"

definition ram_dev :: "ram device" where
  "ram_dev =
     \<lparr>load32 = (\<lambda>h a. (ram_load32 h a, h)), store32 = ram_store32,
      store16 = ram_store16, extern = (\<lambda>h c. h)\<rparr>"

text \<open>
  A device that replays a recording: each load, at whatever address, returns the next
  value of the recording (0 once it is used up), and stores change nothing. Since a run
  of the driver depends on the hardware only through the values its loads return, every
  run against hardware is a run against such a device.
\<close>

definition replay_dev :: "u32 list device" where
  "replay_dev =
     \<lparr>load32 = (\<lambda>q a. case q of [] \<Rightarrow> (0, []) | v # q' \<Rightarrow> (v, q')),
      store32 = (\<lambda>q a v. q), store16 = (\<lambda>q a v. q), extern = (\<lambda>q c. q)\<rparr>"

text \<open>Values of the clock constants, for concrete runs.\<close>

definition clocks0 :: clock_consts where
  "clocks0 =
     \<lparr>CCM_CSCDR1 = 0x020c4024, CSCDR1_UART_CLK_SEL = 6, CSCDR1_CLK_PODF = 0,
      OSC_FREQ = 24000000, VCO_FREQ = 480000000\<rparr>"

text \<open>The console UART as \<open>init\<close> sets it up at \<open>UART2_BASE\<close>, for concrete runs.\<close>

definition console :: Uart where
  "console =
     \<lparr>mu = False, urxd = 0x021e8000, utxd = 0x021e8040, ucr1 = 0x021e8080,
      ucr2 = 0x021e8084, ucr3 = 0x021e8088, ucr4 = 0x021e808c, ufcr = 0x021e8090,
      usr2 = 0x021e8098, uesc = 0x021e809c, utim = 0x021e80a0, ubir = 0x021e80a4,
      ubmr = 0x021e80a8, uts = 0x021e80b4\<rparr>"

section \<open>Bit fields\<close>

lemma field1_eq_1_iff: "(drop_bit n (v::u32) AND 1 = 1) = bit v n"
  by (simp add: and_one_eq bit_iff_odd_drop_bit mod_2_eq_odd)

lemma field1_eq_0_iff: "(drop_bit n (v::u32) AND 1 = 0) = (\<not> bit v n)"
  by (simp add: and_one_eq bit_iff_odd_drop_bit mod_2_eq_odd)

lemma and1_eq_1_iff: "((v::u32) AND 1 = 1) = bit v 0"
  using field1_eq_1_iff[of 0 v] by simp

lemma low_byte0: "ucast ((v::u32) AND 0xff) = (ucast v :: u8)"
proof -
  have "(0xff::u32) = mask 8" by (simp add: mask_eq_exp_minus_1)
  then show ?thesis by (simp add: bit_eq_iff bit_simps)
qed

lemma error_field_iff: "(drop_bit 10 (e::u32) AND 0b11111 \<noteq> 0) = (\<exists>i\<in>{10..14}. bit e i)"
proof -
  have m: "(0b11111::u32) = mask 5" by (simp add: mask_eq_exp_minus_1)
  have "(drop_bit 10 e AND mask 5 = 0) = (\<forall>i<5. \<not> bit e (10 + i))"
  proof -
    have "(\<forall>n<32. bit e (10 + n) \<longrightarrow> \<not> n < 5) = (\<forall>i<5. \<not> bit e (10 + i))"
    proof (intro iffI allI impI)
      fix i :: nat
      assume a: "\<forall>n<32. bit e (10 + n) \<longrightarrow> \<not> n < 5" and i: "i < 5"
      from i have "i < 32" by simp
      with a i show "\<not> bit e (10 + i)" by blast
    next
      fix n :: nat
      assume "\<forall>i<5. \<not> bit e (10 + i)" and "bit e (10 + n)"
      then show "\<not> n < 5" by blast
    qed
    then show ?thesis by (simp add: bit_eq_iff bit_simps)
  qed
  also have "\<dots> = (\<forall>i\<in>{10..14}. \<not> bit e i)"
  proof
    assume a: "\<forall>i<5. \<not> bit e (10 + i)"
    show "\<forall>i\<in>{10..14}. \<not> bit e i"
    proof
      fix i :: nat assume "i \<in> {10..14}"
      then have "i - 10 < 5" "10 + (i - 10) = i" by auto
      with a show "\<not> bit e i" by metis
    qed
  next
    assume "\<forall>i\<in>{10..14}. \<not> bit e i"
    then show "\<forall>i<5. \<not> bit e (10 + i)" by simp
  qed
  finally show ?thesis using m by simp
qed

section \<open>Traces of the primitives\<close>

lemma reg_Get_trace:
  "reg_Get d a p k m = (x, m') \<Longrightarrow>
     \<exists>v. trace m' = trace m @ [Load32 a v] \<and> (v, regs m') = load32 d (regs m) a \<and>
         x = drop_bit p v AND k"
  by (auto simp: reg_Get_def reg_Read_def split: prod.splits)

lemma reg_Write_trace [simp]: "trace (reg_Write d a v m) = trace m @ [Store32 a v]"
  by (simp add: reg_Write_def)

lemma call_ext_trace [simp]: "trace (call_ext d c m) = trace m @ [Extern c]"
  by (simp add: call_ext_def)

lemma reg_SetN_trace:
  "\<exists>v. trace (reg_SetN d a p k x m) =
         trace m @ [Load32 a v, Store32 a ((v AND NOT (push_bit p k)) OR push_bit p x)]"
  by (simp add: reg_SetN_def reg_Read_def split: prod.splits)

lemma reg_Set_trace:
  "\<exists>v. trace (reg_Set d a p m) = trace m @ [Load32 a v, Store32 a (v OR push_bit p 1)]"
  by (simp add: reg_Set_def reg_Read_def split: prod.splits)

lemma reg_Wait_trace:
  assumes "reg_Wait d a p k x m = Some m'"
  shows "\<exists>vs. trace m' = trace m @ map (Load32 a) vs"
proof (rule reg_Wait.raw_induct
    [where P = "\<lambda>d a p k x m m'. \<exists>vs. trace m' = trace m @ map (Load32 a) vs", OF _ assms])
  fix self d a p k x and m m' :: "'a machine"
  assume IH: "\<And>d a p k x m m'. self d a p k x m = Some m' \<Longrightarrow>
                 \<exists>vs. trace m' = trace m @ map (Load32 a) vs"
    and step: "(case reg_Get d a p k m of
                  (v, m1) \<Rightarrow> if v \<noteq> x then self d a p k x m1 else Some m1) = Some m'"
  obtain v m1 where g: "reg_Get d a p k m = (v, m1)" by (cases "reg_Get d a p k m")
  from reg_Get_trace[OF g] obtain w where w: "trace m1 = trace m @ [Load32 a w]" by blast
  show "\<exists>vs. trace m' = trace m @ map (Load32 a) vs"
  proof (cases "v \<noteq> x")
    case True
    with step g have "self d a p k x m1 = Some m'" by simp
    from IH[OF this] obtain vs where "trace m' = trace m1 @ map (Load32 a) vs" by blast
    with w have "trace m' = trace m @ map (Load32 a) (w # vs)" by simp
    then show ?thesis by blast
  next
    case False
    with step g have "m' = m1" by simp
    with w have "trace m' = trace m @ map (Load32 a) [w]" by simp
    then show ?thesis by blast
  qed
qed

lemma replay_simps:
  "load32 replay_dev (v # q) a = (v, q)"
  "load32 replay_dev [] a = (0, [])"
  "store32 replay_dev q a w = q"
  "store16 replay_dev q a h = q"
  "extern replay_dev q c = q"
  by (simp_all add: replay_dev_def)

lemma replay_Wait1:
  "reg_Wait replay_dev a 0 1 1 \<lparr>regs = 1 # q, trace = t\<rparr>
     = Some \<lparr>regs = q, trace = t @ [Load32 a 1]\<rparr>"
  apply (subst reg_Wait.simps)
  apply (simp add: reg_Get_def reg_Read_def replay_simps)
  done

lemma replay_Wait2:
  "reg_Wait replay_dev a 0 1 1 \<lparr>regs = 0 # 1 # q, trace = t\<rparr>
     = Some \<lparr>regs = q, trace = t @ [Load32 a 0, Load32 a 1]\<rparr>"
  apply (subst reg_Wait.simps)
  apply (simp add: reg_Get_def reg_Read_def replay_simps replay_Wait1)
  done

section \<open>Polled receive\<close>

text \<open>
  C4. Whatever the hardware does: with \<open>s\<close> the value \<open>Read\<close> loads from the status
  register USR2, \<open>e\<close> the value of its first load from the receive-data register URXD
  and \<open>x\<close> the value of its second load from URXD, \<open>Read\<close> returns \<open>(0, false)\<close> when
  the receive-ready bit (bit 0 of \<open>s\<close>) is 0, whatever the other registers hold; it returns
  \<open>(0, false)\<close> when receive-ready is set and one of the five error bits 10..14 of \<open>e\<close> is
  set; otherwise it returns the low 8 bits of the receive-data register with
  \<open>valid = true\<close>.
\<close>

theorem Read_gating:
  assumes "load32 d (regs m) (usr2 hw) = (s, h1)"
      and "load32 d h1 (urxd hw) = (e, h2)"
      and "load32 d h2 (urxd hw) = (x, h3)"
  shows "(\<not> bit s 0 \<longrightarrow> fst (Read d hw m) = (0, False)) \<and>
         (bit s 0 \<and> (\<exists>i\<in>{10..14}. bit e i) \<longrightarrow> fst (Read d hw m) = (0, False)) \<and>
         (bit s 0 \<and> (\<forall>i\<in>{10..14}. \<not> bit e i) \<longrightarrow>
            fst (Read d hw m) = (ucast x, True) \<and> unat (ucast x :: u8) = unat x mod 256)"
proof -
  have err: "(drop_bit 10 e AND 31 = 0) = (\<forall>i\<in>{10..14}. \<not> bit e i)"
    using error_field_iff[of e] by blast
  have "unat (ucast x :: u8) = unat x mod 256"
    by (simp add: unsigned_ucast_eq take_bit_eq_mod)
  then show ?thesis
    using err
    by (simp add: Read_def rxReady_def rxError_def reg_Get_def reg_Read_def assms
        and1_eq_1_iff low_byte0 del: bex_simps ball_simps)
qed

theorem Read_gating_witness:
  "fst (Read replay_dev console \<lparr>regs = [1, 0x41, 0x42], trace = []\<rparr>) = (0x42, True) \<and>
   fst (Read replay_dev console \<lparr>regs = [0, 0x41, 0x42], trace = []\<rparr>) = (0, False) \<and>
   fst (Read replay_dev console \<lparr>regs = [1, 0x1041, 0x42], trace = []\<rparr>) = (0, False)"
proof -
  have ok: "\<forall>i\<in>{10..14}. \<not> bit (0x41::u32) i"
    using error_field_iff[of "0x41"] by simp
  have bad: "\<exists>i\<in>{10..14}. bit (0x1041::u32) i"
    using error_field_iff[of "0x1041"] by simp
  have l: "\<And>a b c. load32 replay_dev (regs \<lparr>regs = [a, b, c], trace = []\<rparr>) (usr2 console) = (a, [b, c])"
          "\<And>b c. load32 replay_dev [b, c] (urxd console) = (b, [c])"
          "\<And>c. load32 replay_dev [c] (urxd console) = (c, [])"
    by (simp_all add: replay_simps)
  have 1: "fst (Read replay_dev console \<lparr>regs = [1, 0x41, 0x42], trace = []\<rparr>) = (0x42, True)"
    using Read_gating[OF l] ok by simp
  have 2: "fst (Read replay_dev console \<lparr>regs = [0, 0x41, 0x42], trace = []\<rparr>) = (0, False)"
    using Read_gating[OF l, of 0 "0x41" "0x42"] by simp
  have 3: "fst (Read replay_dev console \<lparr>regs = [1, 0x1041, 0x42], trace = []\<rparr>) = (0, False)"
    using Read_gating[OF l, of 1 "0x1041" "0x42"] bad by simp
  from 1 2 3 show ?thesis by blast
qed

text \<open>
  C9. When the receive-ready bit is set, the error check is itself a load from the
  receive-data register URXD. On the success path \<open>Read\<close> therefore loads URXD twice:
  the value \<open>e\<close> examined for error bits comes from the first load, and the byte returned
  comes from \<open>x\<close>, the second load, made on the device as the first load left it. On
  the error path there is only the first load.
\<close>

theorem Read_loads_twice:
  assumes "load32 d (regs m) (usr2 hw) = (s, h1)"
      and "load32 d h1 (urxd hw) = (e, h2)"
      and "load32 d h2 (urxd hw) = (x, h3)"
      and "bit s 0"
  shows "if \<exists>i\<in>{10..14}. bit e i
         then trace (snd (Read d hw m)) = trace m @ [Load32 (usr2 hw) s, Load32 (urxd hw) e] \<and>
              regs (snd (Read d hw m)) = h2
         else trace (snd (Read d hw m)) =
                trace m @ [Load32 (usr2 hw) s, Load32 (urxd hw) e, Load32 (urxd hw) x] \<and>
              regs (snd (Read d hw m)) = h3 \<and>
              fst (Read d hw m) = (ucast x, True)"
proof -
  have err: "(drop_bit 10 e AND 31 = 0) = (\<not> (\<exists>i\<in>{10..14}. bit e i))"
    using error_field_iff[of e] by blast
  show ?thesis
    using err
    by (simp add: Read_def rxReady_def rxError_def reg_Get_def reg_Read_def assms
        and1_eq_1_iff low_byte0 del: bex_simps ball_simps)
qed

theorem Read_loads_twice_witness:
  "trace (snd (Read replay_dev console \<lparr>regs = [1, 0x41, 0x42, 0x43], trace = []\<rparr>)) =
     [Load32 0x021e8098 1, Load32 0x021e8000 0x41, Load32 0x021e8000 0x42] \<and>
   regs (snd (Read replay_dev console \<lparr>regs = [1, 0x41, 0x42, 0x43], trace = []\<rparr>)) = [0x43] \<and>
   fst (Read replay_dev console \<lparr>regs = [1, 0x41, 0x42, 0x43], trace = []\<rparr>) = (0x42, True)"
proof -
  let ?m = "\<lparr>regs = [1, 0x41, 0x42, 0x43::u32], trace = []\<rparr>"
  have 1: "load32 replay_dev (regs ?m) (usr2 console) = (1, [0x41, 0x42, 0x43])"
    by (simp add: replay_simps)
  have 2: "load32 replay_dev [0x41, 0x42, 0x43] (urxd console) = (0x41, [0x42, 0x43])"
    by (simp add: replay_simps)
  have 3: "load32 replay_dev [0x42, 0x43] (urxd console) = (0x42, [0x43])"
    by (simp add: replay_simps)
  have b: "\<not> (\<exists>i\<in>{10..14}. bit (0x41::u32) i)"
    using error_field_iff[of "0x41"] by simp
  have r: "bit (1::u32) 0" by simp
  show ?thesis
    using Read_loads_twice[OF 1 2 3 r] b by (simp add: console_def)
qed

section \<open>UART initialisation\<close>

lemma podf_range:
  "1 \<le> unat (((x::u32) AND 0b111111) + 1) \<and> unat ((x AND 0b111111) + 1) \<le> 64"
proof -
  have "x AND 0b111111 \<le> 0b111111" by (rule word_and_le1)
  then have "unat (x AND 0b111111) \<le> 63" by (simp add: word_le_nat_alt)
  then show ?thesis by (simp add: unat_word_ariths)
qed

lemma podf_nonzero: "((x::u32) AND 0b111111) + 1 \<noteq> 0"
proof
  assume "(x AND 0b111111) + 1 = 0"
  then have "unat ((x AND 0b111111) + 1) = 0" by simp
  with podf_range[of x] show False by simp
qed

lemma uartclk_trace:
  assumes "uartclk d k m = (r, m')"
  shows "\<exists>s p. trace m' = trace m @ [Load32 (CCM_CSCDR1 k) s, Load32 (CCM_CSCDR1 k) p] \<and>
           r = Inr ((if bit s (CSCDR1_UART_CLK_SEL k) then OSC_FREQ k else VCO_FREQ k)
                     div ((drop_bit (CSCDR1_CLK_PODF k) p AND 0b111111) + 1))"
proof -
  obtain s h1 where 1: "load32 d (regs m) (CCM_CSCDR1 k) = (s, h1)"
    by (cases "load32 d (regs m) (CCM_CSCDR1 k)")
  obtain p h2 where 2: "load32 d h1 (CCM_CSCDR1 k) = (p, h2)"
    by (cases "load32 d h1 (CCM_CSCDR1 k)")
  have "trace m' = trace m @ [Load32 (CCM_CSCDR1 k) s, Load32 (CCM_CSCDR1 k) p] \<and>
        r = Inr ((if bit s (CSCDR1_UART_CLK_SEL k) then OSC_FREQ k else VCO_FREQ k)
                     div ((drop_bit (CSCDR1_CLK_PODF k) p AND 0b111111) + 1))"
    using assms podf_nonzero[of "drop_bit (CSCDR1_CLK_PODF k) p"]
    by (auto simp: uartclk_def reg_Get_def reg_Read_def udiv32_def Let_def field1_eq_1_iff 1 2)
  then show ?thesis by blast
qed

lemma unlock_relock: "\<not> mu hw \<Longrightarrow> hw\<lparr>mu := True\<rparr>\<lparr>mu := False\<rparr> = (hw::Uart)"
  by (cases hw) simp

text \<open>The three ways \<open>Init\<close> can end, once the mutex is taken and the reset wait is over.\<close>

lemma Init_after_wait:
  assumes "\<not> mu hw"
      and "reg_Wait d (ucr2 hw) UCR2_SRST 1 1
             (reg_Write d (ucr2 hw) 0 (reg_Write d (ucr1 hw) 0 m)) = Some mw"
      and "uartclk d k
             (reg_Write d (ufcr hw) 0xa01 (reg_Write d (utim hw) 0 (reg_Write d (uesc hw) 0x1b
               (reg_SetN d (ucr4 hw) 10 0x3f 32 (reg_Write d (ucr3 hw) 0x784 mw))))) = (Inr f, m1)"
  shows "Init d k hw B m =
           (if 2 * B = 0 then Some (Inl DivideByZero)
            else Some (Inr (hw, reg_Set d (ucr1 hw) 0 (reg_Write d (ucr2 hw) 0x4027
                    (reg_Write d (ubmr hw) (f div 6 div (2 * B)) (reg_Write d (ubir hw) 15 m1))))))"
  using assms
  by (simp add: Init_def Let_def bits_Set_def bits_SetN_def udiv32_def unlock_relock)

lemma Init_cases:
  assumes "Init d k hw B m = Some r"
  obtains mw f m1 where "\<not> mu hw"
      and "reg_Wait d (ucr2 hw) UCR2_SRST 1 1
             (reg_Write d (ucr2 hw) 0 (reg_Write d (ucr1 hw) 0 m)) = Some mw"
      and "uartclk d k
             (reg_Write d (ufcr hw) 0xa01 (reg_Write d (utim hw) 0 (reg_Write d (uesc hw) 0x1b
               (reg_SetN d (ucr4 hw) 10 0x3f 32 (reg_Write d (ucr3 hw) 0x784 mw))))) = (Inr f, m1)"
proof -
  from assms have nm: "\<not> mu hw" by (auto simp: Init_def split: if_splits)
  from assms nm obtain mw where w: "reg_Wait d (ucr2 hw) UCR2_SRST 1 1
             (reg_Write d (ucr2 hw) 0 (reg_Write d (ucr1 hw) 0 m)) = Some mw"
    by (auto simp: Init_def Let_def split: option.splits)
  obtain r' m1 where u: "uartclk d k
             (reg_Write d (ufcr hw) 0xa01 (reg_Write d (utim hw) 0 (reg_Write d (uesc hw) 0x1b
               (reg_SetN d (ucr4 hw) 10 0x3f 32 (reg_Write d (ucr3 hw) 0x784 mw))))) = (r', m1)"
    by (cases "uartclk d k
             (reg_Write d (ufcr hw) 0xa01 (reg_Write d (utim hw) 0 (reg_Write d (uesc hw) 0x1b
               (reg_SetN d (ucr4 hw) 10 0x3f 32 (reg_Write d (ucr3 hw) 0x784 mw)))))")
  from uartclk_trace[OF u] obtain f where "r' = Inr f" by blast
  with nm w u that show thesis by blast
qed

lemma Init_Some:
  assumes "Init d k hw B m = Some (Inr (hw', m'))"
  shows "\<not> mu hw \<and> hw' = hw \<and> 2 * B \<noteq> 0 \<and>
    (\<exists>vs c4 m0 f m1 x.
       trace m0 = trace m @ [Store32 (ucr1 hw) 0, Store32 (ucr2 hw) 0] @
            map (Load32 (ucr2 hw)) vs @
            [Store32 (ucr3 hw) 0x784, Load32 (ucr4 hw) c4,
             Store32 (ucr4 hw) ((c4 AND NOT 0xfc00) OR 0x8000),
             Store32 (uesc hw) 0x1b, Store32 (utim hw) 0, Store32 (ufcr hw) 0xa01] \<and>
       uartclk d k m0 = (Inr f, m1) \<and>
       trace m' = trace m1 @
            [Store32 (ubir hw) 15, Store32 (ubmr hw) (f div 6 div (2 * B)),
             Store32 (ucr2 hw) 0x4027, Load32 (ucr1 hw) x, Store32 (ucr1 hw) (x OR 1)])"
proof -
  from assms obtain mw f m1 where nm: "\<not> mu hw"
      and w: "reg_Wait d (ucr2 hw) UCR2_SRST 1 1
             (reg_Write d (ucr2 hw) 0 (reg_Write d (ucr1 hw) 0 m)) = Some mw"
      and u: "uartclk d k
             (reg_Write d (ufcr hw) 0xa01 (reg_Write d (utim hw) 0 (reg_Write d (uesc hw) 0x1b
               (reg_SetN d (ucr4 hw) 10 0x3f 32 (reg_Write d (ucr3 hw) 0x784 mw))))) = (Inr f, m1)"
    by (rule Init_cases)
  define mb where "mb = reg_Write d (ucr3 hw) 0x784 mw"
  define mc where "mc = reg_SetN d (ucr4 hw) 10 0x3f 32 mb"
  define m0 where "m0 = reg_Write d (ufcr hw) 0xa01
                          (reg_Write d (utim hw) 0 (reg_Write d (uesc hw) 0x1b mc))"
  define md where "md = reg_Write d (ucr2 hw) 0x4027
        (reg_Write d (ubmr hw) (f div 6 div (2 * B)) (reg_Write d (ubir hw) 15 m1))"
  have u': "uartclk d k m0 = (Inr f, m1)" using u by (simp add: m0_def mc_def mb_def)
  have res: "2 * B \<noteq> 0 \<and> hw' = hw \<and> m' = reg_Set d (ucr1 hw) 0 md"
    using assms Init_after_wait[OF nm w u, of B]
    by (auto simp: md_def split: if_splits)
  from reg_Wait_trace[OF w] obtain vs where
    vs: "trace mw = trace m @ [Store32 (ucr1 hw) 0, Store32 (ucr2 hw) 0] @ map (Load32 (ucr2 hw)) vs"
    by auto
  from reg_SetN_trace[of d "ucr4 hw" 10 "0x3f" 32 mb] obtain c4 where
    c4: "trace mc = trace mb @ [Load32 (ucr4 hw) c4, Store32 (ucr4 hw) ((c4 AND NOT 0xfc00) OR 0x8000)]"
    by (auto simp: mc_def)
  from reg_Set_trace[of d "ucr1 hw" 0 md] obtain x where
    x: "trace m' = trace md @ [Load32 (ucr1 hw) x, Store32 (ucr1 hw) (x OR 1)]"
    using res by auto
  have t0: "trace m0 = trace m @ [Store32 (ucr1 hw) 0, Store32 (ucr2 hw) 0] @
            map (Load32 (ucr2 hw)) vs @
            [Store32 (ucr3 hw) 0x784, Load32 (ucr4 hw) c4,
             Store32 (ucr4 hw) ((c4 AND NOT 0xfc00) OR 0x8000),
             Store32 (uesc hw) 0x1b, Store32 (utim hw) 0, Store32 (ufcr hw) 0xa01]"
    by (simp add: m0_def c4 mb_def vs)
  have t1: "trace m' = trace m1 @
            [Store32 (ubir hw) 15, Store32 (ubmr hw) (f div 6 div (2 * B)),
             Store32 (ucr2 hw) 0x4027, Load32 (ucr1 hw) x, Store32 (ucr1 hw) (x OR 1)]"
    by (simp add: x md_def)
  from t0 t1 u' res nm show ?thesis by blast
qed

lemma Init_panic: "Init d k hw B m = Some (Inl p) \<Longrightarrow> 2 * B = 0"
proof -
  assume a: "Init d k hw B m = Some (Inl p)"
  then obtain mw f m1 where nm: "\<not> mu hw"
      and w: "reg_Wait d (ucr2 hw) UCR2_SRST 1 1
             (reg_Write d (ucr2 hw) 0 (reg_Write d (ucr1 hw) 0 m)) = Some mw"
      and u: "uartclk d k
             (reg_Write d (ufcr hw) 0xa01 (reg_Write d (utim hw) 0 (reg_Write d (uesc hw) 0x1b
               (reg_SetN d (ucr4 hw) 10 0x3f 32 (reg_Write d (ucr3 hw) 0x784 mw))))) = (Inr f, m1)"
    by (rule Init_cases)
  from a Init_after_wait[OF nm w u, of B] show ?thesis by (auto split: if_splits)
qed

lemma Init_returns:
  assumes "\<not> mu hw"
      and "reg_Wait d (ucr2 hw) UCR2_SRST 1 1
             (reg_Write d (ucr2 hw) 0 (reg_Write d (ucr1 hw) 0 m)) = Some mw"
  shows "\<exists>m'. Init d k hw B m = (if 2 * B = 0 then Some (Inl DivideByZero) else Some (Inr (hw, m')))"
proof -
  obtain r' m1 where u: "uartclk d k
             (reg_Write d (ufcr hw) 0xa01 (reg_Write d (utim hw) 0 (reg_Write d (uesc hw) 0x1b
               (reg_SetN d (ucr4 hw) 10 0x3f 32 (reg_Write d (ucr3 hw) 0x784 mw))))) = (r', m1)"
    by (cases "uartclk d k
             (reg_Write d (ufcr hw) 0xa01 (reg_Write d (utim hw) 0 (reg_Write d (uesc hw) 0x1b
               (reg_SetN d (ucr4 hw) 10 0x3f 32 (reg_Write d (ucr3 hw) 0x784 mw)))))")
  from uartclk_trace[OF u] obtain f where "r' = Inr f" by blast
  with u Init_after_wait[OF assms, of k f m1 B] show ?thesis by auto
qed


lemma unat_twice: "(B::u32) < 0x80000000 \<Longrightarrow> unat (2 * B) = 2 * unat B"
proof -
  assume "B < 0x80000000"
  then have "unat B < 2147483648" by (simp add: word_less_nat_alt)
  then show ?thesis by (simp add: unat_word_ariths)
qed

lemma nat_half:
  "(n::nat) < 4294967296 \<Longrightarrow> (2 * n) mod 4294967296 = 0 \<Longrightarrow> n = 0 \<or> n = 2147483648"
proof -
  assume n: "n < 4294967296" and z: "(2 * n) mod 4294967296 = 0"
  have "(2 * n) mod (2 * 2147483648) = 2 * (n mod 2147483648)"
    by (rule mult_mod_right[symmetric])
  with z have m: "n mod 2147483648 = 0" by simp
  then obtain q where q: "n = 2147483648 * q" by (auto simp: mod_eq_0_iff_dvd)
  with n have "q < 2" by simp
  then have "q = 0 \<or> q = 1" by arith
  with q show ?thesis by auto
qed

lemma twice_zero_iff: "(2 * (B::u32) = 0) = (B = 0 \<or> B = 0x80000000)"
proof
  assume z: "2 * B = 0"
  have "unat (2 * B) = (2 * unat B) mod 4294967296" by (simp add: unat_word_ariths)
  with z have 1: "(2 * unat B) mod 4294967296 = 0" by simp
  have 2: "unat B < 4294967296" using unsigned_less[of B] by simp
  from nat_half[OF 2 1] have "unat B = unat (0::u32) \<or> unat B = unat (0x80000000::u32)" by simp
  then show "B = 0 \<or> B = 0x80000000"
    by (simp only: word_unat_eq_iff)
next
  assume "B = 0 \<or> B = 0x80000000"
  then show "2 * B = 0"
  proof
    assume "B = 0" then show ?thesis by simp
  next
    assume "B = 0x80000000" then show ?thesis by simp
  qed
qed

lemma Init_replay:
  "Init replay_dev clocks0 console B \<lparr>regs = [0, 1, 0, 0x40, 0x02, 0], trace = []\<rparr> =
     (if 2 * B = 0 then Some (Inl DivideByZero)
      else Some (Inr (console,
        \<lparr>regs = [],
         trace = [Store32 0x021e8080 0, Store32 0x021e8084 0, Load32 0x021e8084 0,
                  Load32 0x021e8084 1, Store32 0x021e8088 0x784, Load32 0x021e808c 0,
                  Store32 0x021e808c 0x8000, Store32 0x021e809c 0x1b, Store32 0x021e80a0 0,
                  Store32 0x021e8090 0xa01, Load32 0x020c4024 0x40, Load32 0x020c4024 0x02,
                  Store32 0x021e80a4 15, Store32 0x021e80a8 (8000000 div 6 div (2 * B)),
                  Store32 0x021e8084 0x4027, Load32 0x021e8080 0, Store32 0x021e8080 1]\<rparr>)))"
  by (simp add: Init_def console_def reg_Write_def replay_simps replay_Wait2 Let_def
      bits_Set_def bits_SetN_def reg_SetN_def reg_Read_def uartclk_def reg_Get_def udiv32_def
      clocks0_def reg_Set_def)

text \<open>
  C1. For a baud rate \<open>0 < B < 2^31\<close> (any rate the hardware can produce is far below
  that bound), a call of \<open>Init\<close> that returns has run \<open>uartclk\<close> (its two loads of the
  clock register are in the trace) with a result \<open>f\<close>, and has then stored 15 to the
  denominator register UBIR and, right after it, to the numerator register UBMR the word
  whose value is \<open>\<lfloor>\<lfloor>f / 6\<rfloor> / (2 B)\<rfloor>\<close>, which is also \<open>\<lfloor>f / (12 B)\<rfloor>\<close>; the only later
  accesses are the store to UCR2 and the read-modify-write of UCR1. The call does return
  when the mutex is free and the wait for the software reset ends.
\<close>

theorem Init_baud_registers:
  assumes "0 < B" and "B < 0x80000000"
  shows "(Init d k hw B m = Some (Inr (hw', m')) \<longrightarrow>
           (\<exists>pre s p m0 f m1 x.
              trace m0 = trace m @ pre \<and>
              uartclk d k m0 = (Inr f, m1) \<and>
              trace m1 = trace m0 @ [Load32 (CCM_CSCDR1 k) s, Load32 (CCM_CSCDR1 k) p] \<and>
              trace m' = trace m1 @
                [Store32 (ubir hw) 15, Store32 (ubmr hw) (f div 6 div (2 * B)),
                 Store32 (ucr2 hw) 0x4027, Load32 (ucr1 hw) x, Store32 (ucr1 hw) (x OR 1)] \<and>
              unat (f div 6 div (2 * B)) = (unat f div 6) div (2 * unat B) \<and>
              unat (f div 6 div (2 * B)) = unat f div (12 * unat B))) \<and>
         (\<not> mu hw \<and>
          reg_Wait d (ucr2 hw) UCR2_SRST 1 1
            (reg_Write d (ucr2 hw) 0 (reg_Write d (ucr1 hw) 0 m)) \<noteq> None \<longrightarrow>
          (\<exists>m'. Init d k hw B m = Some (Inr (hw, m'))))"
proof (intro conjI impI)
  assume "Init d k hw B m = Some (Inr (hw', m'))"
  from Init_Some[OF this] obtain pre m0 f m1 x where
    1: "trace m0 = trace m @ pre" and 2: "uartclk d k m0 = (Inr f, m1)" and
    3: "trace m' = trace m1 @
                [Store32 (ubir hw) 15, Store32 (ubmr hw) (f div 6 div (2 * B)),
                 Store32 (ucr2 hw) 0x4027, Load32 (ucr1 hw) x, Store32 (ucr1 hw) (x OR 1)]"
    by blast
  from uartclk_trace[OF 2] obtain s p where
    4: "trace m1 = trace m0 @ [Load32 (CCM_CSCDR1 k) s, Load32 (CCM_CSCDR1 k) p]" by blast
  have 5: "unat (f div 6 div (2 * B)) = (unat f div 6) div (2 * unat B)"
    using assms(2) by (simp add: unat_div unat_twice)
  have 6: "unat (f div 6 div (2 * B)) = unat f div (12 * unat B)"
    using 5 div_mult2_eq[of "unat f" 6 "2 * unat B"] by simp
  from 1 2 3 4 5 6 show "\<exists>pre s p m0 f m1 x.
              trace m0 = trace m @ pre \<and>
              uartclk d k m0 = (Inr f, m1) \<and>
              trace m1 = trace m0 @ [Load32 (CCM_CSCDR1 k) s, Load32 (CCM_CSCDR1 k) p] \<and>
              trace m' = trace m1 @
                [Store32 (ubir hw) 15, Store32 (ubmr hw) (f div 6 div (2 * B)),
                 Store32 (ucr2 hw) 0x4027, Load32 (ucr1 hw) x, Store32 (ucr1 hw) (x OR 1)] \<and>
              unat (f div 6 div (2 * B)) = (unat f div 6) div (2 * unat B) \<and>
              unat (f div 6 div (2 * B)) = unat f div (12 * unat B)"
    by blast
next
  assume a: "\<not> mu hw \<and>
          reg_Wait d (ucr2 hw) UCR2_SRST 1 1
            (reg_Write d (ucr2 hw) 0 (reg_Write d (ucr1 hw) 0 m)) \<noteq> None"
  then obtain mw where w: "reg_Wait d (ucr2 hw) UCR2_SRST 1 1
            (reg_Write d (ucr2 hw) 0 (reg_Write d (ucr1 hw) 0 m)) = Some mw" by auto
  from assms have "2 * B \<noteq> 0" by (auto simp: twice_zero_iff)
  with Init_returns[OF conjunct1[OF a] w, of k B]
  show "\<exists>m'. Init d k hw B m = Some (Inr (hw, m'))" by simp
qed


theorem Init_baud_registers_witness:
  "(0::u32) < 115200 \<and> (115200::u32) < 0x80000000 \<and>
   (\<exists>m'. Init replay_dev clocks0 console 115200
            \<lparr>regs = [0, 1, 0, 0x40, 0x02, 0], trace = []\<rparr> = Some (Inr (console, m')) \<and>
      trace m' =
        [Store32 0x021e8080 0, Store32 0x021e8084 0, Load32 0x021e8084 0,
         Load32 0x021e8084 1, Store32 0x021e8088 0x784, Load32 0x021e808c 0,
         Store32 0x021e808c 0x8000, Store32 0x021e809c 0x1b, Store32 0x021e80a0 0,
         Store32 0x021e8090 0xa01, Load32 0x020c4024 0x40, Load32 0x020c4024 0x02,
         Store32 0x021e80a4 15, Store32 0x021e80a8 5,
         Store32 0x021e8084 0x4027, Load32 0x021e8080 0, Store32 0x021e8080 1] \<and>
      (\<exists>pre s p m0 f m1 x.
          trace m0 = pre \<and>
          uartclk replay_dev clocks0 m0 = (Inr f, m1) \<and>
          trace m1 = trace m0 @ [Load32 (CCM_CSCDR1 clocks0) s, Load32 (CCM_CSCDR1 clocks0) p] \<and>
          trace m' = trace m1 @
            [Store32 (ubir console) 15, Store32 (ubmr console) (f div 6 div (2 * 115200)),
             Store32 (ucr2 console) 0x4027, Load32 (ucr1 console) x,
             Store32 (ucr1 console) (x OR 1)] \<and>
          unat (f div 6 div (2 * 115200)) = (unat f div 6) div (2 * unat (115200::u32))))"
proof -
  let ?M = "\<lparr>regs = [0, 1, 0, 0x40, 0x02, 0::u32], trace = []\<rparr>"
  have h1: "(0::u32) < 115200" by simp
  have h2: "(115200::u32) < 0x80000000" by simp
  have free: "\<not> mu console" by (simp add: console_def)
  have w: "reg_Wait replay_dev (ucr2 console) UCR2_SRST 1 1
             (reg_Write replay_dev (ucr2 console) 0 (reg_Write replay_dev (ucr1 console) 0 ?M))
           \<noteq> None"
    by (simp add: reg_Write_def replay_simps replay_Wait2)
  note T = Init_baud_registers[OF h1 h2, where d = replay_dev and k = clocks0
      and hw = console and m = ?M]
  from T free w obtain m' where run:
    "Init replay_dev clocks0 console 115200 ?M = Some (Inr (console, m'))" by blast
  from run Init_replay[of 115200] have tr: "trace m' =
        [Store32 0x021e8080 0, Store32 0x021e8084 0, Load32 0x021e8084 0,
         Load32 0x021e8084 1, Store32 0x021e8088 0x784, Load32 0x021e808c 0,
         Store32 0x021e808c 0x8000, Store32 0x021e809c 0x1b, Store32 0x021e80a0 0,
         Store32 0x021e8090 0xa01, Load32 0x020c4024 0x40, Load32 0x020c4024 0x02,
         Store32 0x021e80a4 15, Store32 0x021e80a8 5,
         Store32 0x021e8084 0x4027, Load32 0x021e8080 0, Store32 0x021e8080 1]"
    by auto
  from T[where hw' = console and m' = m'] run
  have "\<exists>pre s p m0 f m1 x.
          trace m0 = trace ?M @ pre \<and>
          uartclk replay_dev clocks0 m0 = (Inr f, m1) \<and>
          trace m1 = trace m0 @ [Load32 (CCM_CSCDR1 clocks0) s, Load32 (CCM_CSCDR1 clocks0) p] \<and>
          trace m' = trace m1 @
            [Store32 (ubir console) 15, Store32 (ubmr console) (f div 6 div (2 * 115200)),
             Store32 (ucr2 console) 0x4027, Load32 (ucr1 console) x,
             Store32 (ucr1 console) (x OR 1)] \<and>
          unat (f div 6 div (2 * 115200)) = (unat f div 6) div (2 * unat (115200::u32))"
    by blast
  then have "\<exists>pre s p m0 f m1 x.
          trace m0 = pre \<and>
          uartclk replay_dev clocks0 m0 = (Inr f, m1) \<and>
          trace m1 = trace m0 @ [Load32 (CCM_CSCDR1 clocks0) s, Load32 (CCM_CSCDR1 clocks0) p] \<and>
          trace m' = trace m1 @
            [Store32 (ubir console) 15, Store32 (ubmr console) (f div 6 div (2 * 115200)),
             Store32 (ucr2 console) 0x4027, Load32 (ucr1 console) x,
             Store32 (ucr1 console) (x OR 1)] \<and>
          unat (f div 6 div (2 * 115200)) = (unat f div 6) div (2 * unat (115200::u32))"
    by simp
  with run tr h1 h2 show ?thesis by blast
qed

text \<open>
  C10, as amended. \<open>Init\<close> divides by \<open>2 * baudrate\<close> in 32-bit arithmetic with no
  guard, and the product wraps to 0 for \<open>baudrate = 2^31\<close> as well as for
  \<open>baudrate = 0\<close>. For every other baud rate neither \<open>Init\<close> nor \<open>init\<close> panics,
  whatever the hardware does; for these two it panics as soon as it reaches the division.
  The division in \<open>uartclk\<close> never panics: its divisor \<open>podf + 1\<close> lies in [1, 64].
\<close>

theorem Init_division_defined:
  assumes "B \<noteq> 0" and "B \<noteq> 0x80000000"
  shows "Init d k hw B m \<noteq> Some (Inl p) \<and>
         init d k hw base B m \<noteq> Some (Inl p) \<and>
         (\<not> mu hw \<and>
          reg_Wait d (ucr2 hw) UCR2_SRST 1 1
            (reg_Write d (ucr2 hw) 0 (reg_Write d (ucr1 hw) 0 m)) \<noteq> None \<longrightarrow>
          Init d k hw 0 m = Some (Inl DivideByZero) \<and>
          Init d k hw 0x80000000 m = Some (Inl DivideByZero)) \<and>
         (\<exists>s v. trace (snd (uartclk d k m)) =
                   trace m @ [Load32 (CCM_CSCDR1 k) s, Load32 (CCM_CSCDR1 k) v] \<and>
                 1 \<le> unat ((drop_bit (CSCDR1_CLK_PODF k) v AND 0b111111) + 1) \<and>
                 unat ((drop_bit (CSCDR1_CLK_PODF k) v AND 0b111111) + 1) \<le> 64 \<and>
                 fst (uartclk d k m) =
                   Inr ((if bit s (CSCDR1_UART_CLK_SEL k) then OSC_FREQ k else VCO_FREQ k)
                        div ((drop_bit (CSCDR1_CLK_PODF k) v AND 0b111111) + 1)))"
proof (intro conjI impI)
  from assms have nz: "2 * B \<noteq> 0" by (simp add: twice_zero_iff)
  show "Init d k hw B m \<noteq> Some (Inl p)"
    using Init_panic[of d k hw B m p] nz by blast
  show "init d k hw base B m \<noteq> Some (Inl p)"
    unfolding init_def Let_def using Init_panic[of d k _ B m p] nz by blast
next
  assume a: "\<not> mu hw \<and>
          reg_Wait d (ucr2 hw) UCR2_SRST 1 1
            (reg_Write d (ucr2 hw) 0 (reg_Write d (ucr1 hw) 0 m)) \<noteq> None"
  then obtain mw where w: "reg_Wait d (ucr2 hw) UCR2_SRST 1 1
            (reg_Write d (ucr2 hw) 0 (reg_Write d (ucr1 hw) 0 m)) = Some mw" by auto
  show "Init d k hw 0 m = Some (Inl DivideByZero)"
    using Init_returns[OF conjunct1[OF a] w, of k 0] by simp
  show "Init d k hw 0x80000000 m = Some (Inl DivideByZero)"
    using Init_returns[OF conjunct1[OF a] w, of k "0x80000000"] by simp
next
  obtain r m1 where u: "uartclk d k m = (r, m1)" by (cases "uartclk d k m")
  from uartclk_trace[OF u] obtain s v where
    "trace m1 = trace m @ [Load32 (CCM_CSCDR1 k) s, Load32 (CCM_CSCDR1 k) v]"
    "r = Inr ((if bit s (CSCDR1_UART_CLK_SEL k) then OSC_FREQ k else VCO_FREQ k)
                        div ((drop_bit (CSCDR1_CLK_PODF k) v AND 0b111111) + 1))"
    by blast
  with u podf_range[of "drop_bit (CSCDR1_CLK_PODF k) v"]
  show "\<exists>s v. trace (snd (uartclk d k m)) =
                   trace m @ [Load32 (CCM_CSCDR1 k) s, Load32 (CCM_CSCDR1 k) v] \<and>
                 1 \<le> unat ((drop_bit (CSCDR1_CLK_PODF k) v AND 0b111111) + 1) \<and>
                 unat ((drop_bit (CSCDR1_CLK_PODF k) v AND 0b111111) + 1) \<le> 64 \<and>
                 fst (uartclk d k m) =
                   Inr ((if bit s (CSCDR1_UART_CLK_SEL k) then OSC_FREQ k else VCO_FREQ k)
                        div ((drop_bit (CSCDR1_CLK_PODF k) v AND 0b111111) + 1))"
    by auto
qed

theorem Init_division_defined_witness:
  "(115200::u32) \<noteq> 0 \<and> (115200::u32) \<noteq> 0x80000000 \<and>
   Init replay_dev clocks0 console 115200 \<lparr>regs = [0, 1, 0, 0x40, 0x02, 0], trace = []\<rparr>
     \<noteq> Some (Inl DivideByZero) \<and>
   Init replay_dev clocks0 console 0 \<lparr>regs = [0, 1, 0, 0x40, 0x02, 0], trace = []\<rparr>
     = Some (Inl DivideByZero)"
proof -
  let ?M = "\<lparr>regs = [0, 1, 0, 0x40, 0x02, 0::u32], trace = []\<rparr>"
  have h1: "(115200::u32) \<noteq> 0" by simp
  have h2: "(115200::u32) \<noteq> 0x80000000" by simp
  have free: "\<not> mu console" by (simp add: console_def)
  have w: "reg_Wait replay_dev (ucr2 console) UCR2_SRST 1 1
             (reg_Write replay_dev (ucr2 console) 0 (reg_Write replay_dev (ucr1 console) 0 ?M))
           \<noteq> None"
    by (simp add: reg_Write_def replay_simps replay_Wait2)
  from Init_division_defined[OF h1 h2, where d = replay_dev and k = clocks0
      and hw = console and m = ?M and p = DivideByZero] free w h1 h2
  show ?thesis by blast
qed

theorem Init_division_counterexample:
  "(0::u32) < 0x80000000 \<and>
   Init replay_dev clocks0 console 0x80000000 \<lparr>regs = [0, 1, 0, 0x40, 0x02, 0], trace = []\<rparr>
     = Some (Inl DivideByZero)"
  using Init_replay[of "0x80000000"] by simp

section \<open>Bring-up\<close>

lemma byte_field_bits: "bit (drop_bit n (w::u32) AND 0xff) i = (i < 8 \<and> bit w (n + i))"
proof -
  have m: "(0xff::u32) = mask 8" by (simp add: mask_eq_exp_minus_1)
  show ?thesis unfolding m by (auto simp: bit_simps dest: bit_imp_le_length)
qed

lemma SiliconVersion_eq:
  assumes "SiliconVersion d m = ((sv, fam, maj, mnr), m1)"
  shows "(sv, regs m1) = load32 d (regs m) USB_ANALOG_DIGPROG \<and>
         trace m1 = trace m @ [Load32 USB_ANALOG_DIGPROG sv] \<and>
         fam = drop_bit 16 sv AND 0xff \<and> maj = drop_bit 8 sv AND 0xff \<and> mnr = sv AND 0xff"
  using assms by (auto simp: SiliconVersion_def reg_Read_def Let_def split: prod.splits)

lemma Init_no_extern:
  assumes "Init d k hw B m = Some (Inr (hw', m'))"
  shows "\<exists>es. trace m' = trace m @ es \<and> (\<forall>c. Extern c \<notin> set es)"
proof -
  from Init_Some[OF assms] obtain vs c4 m0 f m1 x where
    0: "trace m0 = trace m @ [Store32 (ucr1 hw) 0, Store32 (ucr2 hw) 0] @
            map (Load32 (ucr2 hw)) vs @
            [Store32 (ucr3 hw) 0x784, Load32 (ucr4 hw) c4,
             Store32 (ucr4 hw) ((c4 AND NOT 0xfc00) OR 0x8000),
             Store32 (uesc hw) 0x1b, Store32 (utim hw) 0, Store32 (ufcr hw) 0xa01]" and
    u: "uartclk d k m0 = (Inr f, m1)" and
    1: "trace m' = trace m1 @
            [Store32 (ubir hw) 15, Store32 (ubmr hw) (f div 6 div (2 * B)),
             Store32 (ucr2 hw) 0x4027, Load32 (ucr1 hw) x, Store32 (ucr1 hw) (x OR 1)]"
    by blast
  from uartclk_trace[OF u] obtain s p where
    2: "trace m1 = trace m0 @ [Load32 (CCM_CSCDR1 k) s, Load32 (CCM_CSCDR1 k) p]" by blast
  let ?es = "[Store32 (ucr1 hw) 0, Store32 (ucr2 hw) 0] @
            map (Load32 (ucr2 hw)) vs @
            [Store32 (ucr3 hw) 0x784, Load32 (ucr4 hw) c4,
             Store32 (ucr4 hw) ((c4 AND NOT 0xfc00) OR 0x8000),
             Store32 (uesc hw) 0x1b, Store32 (utim hw) 0, Store32 (ufcr hw) 0xa01,
             Load32 (CCM_CSCDR1 k) s, Load32 (CCM_CSCDR1 k) p,
             Store32 (ubir hw) 15, Store32 (ubmr hw) (f div 6 div (2 * B)),
             Store32 (ucr2 hw) 0x4027, Load32 (ucr1 hw) x, Store32 (ucr1 hw) (x OR 1)]"
  have "trace m' = trace m @ ?es" by (simp add: 0 1 2)
  moreover have "\<forall>c. Extern c \<notin> set ?es" by auto
  ultimately show ?thesis by blast
qed

lemma hwinit_Some:
  assumes "hwinit d k g m = Some (Inr (g', m'))"
      and "SiliconVersion d
             (call_ext d ARM_CacheEnable (call_ext d ARM_EnableVFP (call_ext d ARM_Init m)))
           = ((sv, fam, maj, mnr), m1)"
  shows "Family g' = fam \<and> Native g' = (Native g \<or> maj \<noteq> 0 \<or> mnr \<noteq> 0) \<and>
         getRandomDataFn g' = getRandomDataFn g \<and>
         (\<exists>es. trace m' = trace m1 @ es @
                  [Extern (if fam = IMX6Q then ARM_InitGlobalTimers
                           else if fam = IMX6UL \<or> fam = IMX6ULL then
                             (if \<not> Native g' then ARM_InitGenericTimers SYS_CNT_BASE 62500000
                              else ARM_InitGenericTimers SYS_CNT_BASE 8000000)
                           else ARM_InitGlobalTimers)] \<and>
               (\<forall>c. Extern c \<notin> set es))"
proof -
  define g1 where "g1 = (if maj \<noteq> 0 \<or> mnr \<noteq> 0 then g\<lparr>Family := fam, Native := True\<rparr>
                         else g\<lparr>Family := fam\<rparr>)"
  have g1: "Family g1 = fam" "Native g1 = (Native g \<or> maj \<noteq> 0 \<or> mnr \<noteq> 0)"
    "getRandomDataFn g1 = getRandomDataFn g" "UART2 g1 = UART2 g"
    by (auto simp: g1_def)
  have h: "hwinit d k g m =
     (case init d k (UART2 g1) UART2_BASE UART_DEFAULT_BAUDRATE m1 of
           None \<Rightarrow> None
         | Some (Inl p) \<Rightarrow> Some (Inl p)
         | Some (Inr (hw, m2)) \<Rightarrow>
            Some (Inr (g1\<lparr>UART2 := hw\<rparr>,
                 (if fam = IMX6Q then call_ext d ARM_InitGlobalTimers m2
                      else if fam = IMX6UL \<or> fam = IMX6ULL then
                        (if \<not> Native g1
                         then call_ext d (ARM_InitGenericTimers SYS_CNT_BASE 62500000) m2
                         else call_ext d (ARM_InitGenericTimers SYS_CNT_BASE 8000000) m2)
                      else call_ext d ARM_InitGlobalTimers m2))))"
    unfolding hwinit_def
    by (simp add: assms(2) Let_def g1_def split: option.splits sum.splits prod.splits)
  from assms(1) h obtain hw m2 where
    i: "init d k (UART2 g1) UART2_BASE UART_DEFAULT_BAUDRATE m1 = Some (Inr (hw, m2))" and
    g': "g' = g1\<lparr>UART2 := hw\<rparr>" and
    m': "m' = (if fam = IMX6Q then call_ext d ARM_InitGlobalTimers m2
                      else if fam = IMX6UL \<or> fam = IMX6ULL then
                        (if \<not> Native g1
                         then call_ext d (ARM_InitGenericTimers SYS_CNT_BASE 62500000) m2
                         else call_ext d (ARM_InitGenericTimers SYS_CNT_BASE 8000000) m2)
                      else call_ext d ARM_InitGlobalTimers m2)"
    by (auto split: option.splits sum.splits prod.splits)
  from i obtain es where es: "trace m2 = trace m1 @ es" "\<forall>c. Extern c \<notin> set es"
    unfolding init_def Let_def using Init_no_extern by blast
  have "trace m' = trace m1 @ es @
                  [Extern (if fam = IMX6Q then ARM_InitGlobalTimers
                           else if fam = IMX6UL \<or> fam = IMX6ULL then
                             (if \<not> Native g' then ARM_InitGenericTimers SYS_CNT_BASE 62500000
                              else ARM_InitGenericTimers SYS_CNT_BASE 8000000)
                           else ARM_InitGlobalTimers)]"
    by (simp add: m' g' es(1))
  with es(2) g' g1 show ?thesis by auto
qed


lemma SiliconVersion_replay:
  "SiliconVersion replay_dev
     (call_ext replay_dev ARM_CacheEnable (call_ext replay_dev ARM_EnableVFP
        (call_ext replay_dev ARM_Init \<lparr>regs = sv # q, trace = []\<rparr>))) =
   ((sv, drop_bit 16 sv AND 0xff, drop_bit 8 sv AND 0xff, sv AND 0xff),
    \<lparr>regs = q, trace = [Extern ARM_Init, Extern ARM_EnableVFP, Extern ARM_CacheEnable,
                         Load32 USB_ANALOG_DIGPROG sv]\<rparr>)"
  by (simp add: SiliconVersion_def call_ext_def reg_Read_def replay_simps)

lemma low24_fields:
  assumes "(sv::u32) AND 0xffffff = v"
  shows "drop_bit 16 sv AND 0xff = drop_bit 16 v AND 0xff"
    and "drop_bit 8 sv AND 0xff = drop_bit 8 v AND 0xff"
    and "sv AND 0xff = v AND 0xff"
proof -
  have m: "(0xffffff::u32) = mask 24" "(0xff::u32) = mask 8"
    by (simp_all add: mask_eq_exp_minus_1)
  have v: "v = sv AND mask 24" using assms m by simp
  show "drop_bit 16 sv AND 0xff = drop_bit 16 v AND 0xff"
    unfolding v m by (rule bit_eqI) (auto simp: bit_simps)
  show "drop_bit 8 sv AND 0xff = drop_bit 8 v AND 0xff"
    unfolding v m by (rule bit_eqI) (auto simp: bit_simps)
  show "sv AND 0xff = v AND 0xff"
    unfolding v m by (rule bit_eqI) (auto simp: bit_simps)
qed

text \<open>
  Bring-up never panics, and it returns whenever the console initialisation does: when the
  mutex of the console UART is free and the wait for its software reset ends.
\<close>

lemma hwinit_unfold:
  assumes "SiliconVersion d
             (call_ext d ARM_CacheEnable (call_ext d ARM_EnableVFP (call_ext d ARM_Init m)))
           = ((sv, fam, maj, mnr), m1)"
  shows "hwinit d k g m =
     (case init d k (UART2 g) UART2_BASE UART_DEFAULT_BAUDRATE m1 of
           None \<Rightarrow> None
         | Some (Inl p) \<Rightarrow> Some (Inl p)
         | Some (Inr (hw, m2)) \<Rightarrow>
            Some (Inr ((if maj \<noteq> 0 \<or> mnr \<noteq> 0 then g\<lparr>Family := fam, Native := True\<rparr>
                        else g\<lparr>Family := fam\<rparr>)\<lparr>UART2 := hw\<rparr>,
                 call_ext d
                   (if fam = IMX6Q then ARM_InitGlobalTimers
                    else if fam = IMX6UL \<or> fam = IMX6ULL then
                      (if \<not> (Native g \<or> maj \<noteq> 0 \<or> mnr \<noteq> 0)
                       then ARM_InitGenericTimers SYS_CNT_BASE 62500000
                       else ARM_InitGenericTimers SYS_CNT_BASE 8000000)
                    else ARM_InitGlobalTimers) m2)))"
  unfolding hwinit_def
  by (auto simp: assms Let_def split: option.splits sum.splits prod.splits)

lemma init_panic: "init d k hw base B m = Some (Inl p) \<Longrightarrow> 2 * B = 0"
  unfolding init_def Let_def by (rule Init_panic)

lemma hwinit_no_panic: "hwinit d k g m \<noteq> Some (Inl p)"
proof -
  obtain sv fam maj mnr m1 where s: "SiliconVersion d
      (call_ext d ARM_CacheEnable (call_ext d ARM_EnableVFP (call_ext d ARM_Init m)))
      = ((sv, fam, maj, mnr), m1)"
    by (metis prod.exhaust)
  have "init d k (UART2 g) UART2_BASE UART_DEFAULT_BAUDRATE m1 \<noteq> Some (Inl p)"
    using init_panic[of d k "UART2 g" UART2_BASE UART_DEFAULT_BAUDRATE m1 p] by auto
  then show ?thesis
    unfolding hwinit_unfold[OF s]
    by (auto split: option.splits sum.splits prod.splits dest: init_panic)
qed

lemma init_returns:
  assumes "\<not> mu hw"
      and "reg_Wait d (base + UARTx_UCR2) UCR2_SRST 1 1
             (reg_Write d (base + UARTx_UCR2) 0 (reg_Write d (base + UARTx_UCR1) 0 m)) \<noteq> None"
      and "2 * B \<noteq> 0"
  shows "\<exists>hw' m'. init d k hw base B m = Some (Inr (hw', m'))"
proof -
  let ?hw = "hw\<lparr>urxd := base + UARTx_URXD, utxd := base + UARTx_UTXD, ucr1 := base + UARTx_UCR1,
      ucr2 := base + UARTx_UCR2, ucr3 := base + UARTx_UCR3, ucr4 := base + UARTx_UCR4,
      ufcr := base + UARTx_UFCR, usr2 := base + UARTx_USR2, uesc := base + UARTx_UESC,
      utim := base + UARTx_UTIM, ubir := base + UARTx_UBIR, ubmr := base + UARTx_UBMR,
      uts := base + UARTx_UTS\<rparr>"
  have i: "init d k hw base B m = Init d k ?hw B m" by (simp add: init_def Let_def)
  have f: "\<not> mu ?hw" using assms(1) by simp
  from assms(2) obtain mw where "reg_Wait d (ucr2 ?hw) UCR2_SRST 1 1
             (reg_Write d (ucr2 ?hw) 0 (reg_Write d (ucr1 ?hw) 0 m)) = Some mw"
    by auto
  from Init_returns[OF f this, of k B] assms(3) i show ?thesis by auto
qed

lemma hwinit_returns:
  assumes "SiliconVersion d
             (call_ext d ARM_CacheEnable (call_ext d ARM_EnableVFP (call_ext d ARM_Init m)))
           = ((sv, fam, maj, mnr), m1)"
      and "\<not> mu (UART2 g)"
      and "reg_Wait d (UART2_BASE + UARTx_UCR2) UCR2_SRST 1 1
             (reg_Write d (UART2_BASE + UARTx_UCR2) 0
               (reg_Write d (UART2_BASE + UARTx_UCR1) 0 m1)) \<noteq> None"
  shows "\<exists>g' m'. hwinit d k g m = Some (Inr (g', m'))"
proof -
  have "2 * UART_DEFAULT_BAUDRATE \<noteq> 0" by simp
  from init_returns[OF assms(2) assms(3) this, of k] obtain hw' m2 where
    "init d k (UART2 g) UART2_BASE UART_DEFAULT_BAUDRATE m1 = Some (Inr (hw', m2))" by blast
  then show ?thesis unfolding hwinit_unfold[OF assms(1)] by simp
qed

lemma replay_console_wait:
  "reg_Wait replay_dev (UART2_BASE + UARTx_UCR2) UCR2_SRST 1 1
     (reg_Write replay_dev (UART2_BASE + UARTx_UCR2) 0
       (reg_Write replay_dev (UART2_BASE + UARTx_UCR1) 0 \<lparr>regs = 1 # q, trace = t\<rparr>)) \<noteq> None"
  by (simp add: reg_Write_def replay_simps replay_Wait1)

text \<open>
  C2. Whatever value \<open>sv\<close> the chip-version register returns, \<open>SiliconVersion\<close> gives
  bits 23..16 of it as the family, bits 15..8 as the major and bits 7..0 as the minor
  revision. Bring-up records them for every such value: \<open>hwinit\<close> never panics, and it
  returns whenever the mutex of the console UART is free and the wait for the UART's
  software reset ends; when it returns it has recorded that family, and the native flag
  it has recorded is true when it was set before or one of the revision fields is not 0.
  Started with the native flag unset (as it is at program start), the recorded flag is
  therefore false when both revision fields are 0 and true otherwise.
\<close>

theorem identification_fields:
  "(SiliconVersion d m = ((sv, family, revMajor, revMinor), m1) \<longrightarrow>
      (sv, regs m1) = load32 d (regs m) USB_ANALOG_DIGPROG \<and>
      (\<forall>i. bit family i = (i < 8 \<and> bit sv (16 + i))) \<and>
      (\<forall>i. bit revMajor i = (i < 8 \<and> bit sv (8 + i))) \<and>
      (\<forall>i. bit revMinor i = (i < 8 \<and> bit sv i))) \<and>
   (hwinit d k g m = Some (Inr (g', m')) \<and> \<not> Native g \<and>
    SiliconVersion d
      (call_ext d ARM_CacheEnable (call_ext d ARM_EnableVFP (call_ext d ARM_Init m)))
      = ((sv', family', revMajor', revMinor'), m1') \<longrightarrow>
      Family g' = family' \<and>
      (revMajor' = 0 \<and> revMinor' = 0 \<longrightarrow> \<not> Native g') \<and>
      (\<not> (revMajor' = 0 \<and> revMinor' = 0) \<longrightarrow> Native g')) \<and>
   (\<not> mu (UART2 g) \<and>
    SiliconVersion d
      (call_ext d ARM_CacheEnable (call_ext d ARM_EnableVFP (call_ext d ARM_Init m)))
      = ((sv', family', revMajor', revMinor'), m1') \<and>
    reg_Wait d (UART2_BASE + UARTx_UCR2) UCR2_SRST 1 1
      (reg_Write d (UART2_BASE + UARTx_UCR2) 0
        (reg_Write d (UART2_BASE + UARTx_UCR1) 0 m1')) \<noteq> None \<longrightarrow>
      (\<exists>g1 m2. hwinit d k g m = Some (Inr (g1, m2)) \<and>
               Family g1 = family' \<and>
               Native g1 = (Native g \<or> \<not> (revMajor' = 0 \<and> revMinor' = 0)))) \<and>
   hwinit d k g m \<noteq> Some (Inl p)"
proof (intro conjI impI)
  assume a: "SiliconVersion d m = ((sv, family, revMajor, revMinor), m1)"
  note e = SiliconVersion_eq[OF a]
  from e show "(sv, regs m1) = load32 d (regs m) USB_ANALOG_DIGPROG" by blast
  from e show "\<forall>i. bit family i = (i < 8 \<and> bit sv (16 + i))"
    by (simp add: byte_field_bits)
  from e show "\<forall>i. bit revMajor i = (i < 8 \<and> bit sv (8 + i))"
    by (simp add: byte_field_bits)
  from e byte_field_bits[of 0 sv] show "\<forall>i. bit revMinor i = (i < 8 \<and> bit sv i)"
    by simp
next
  assume a: "hwinit d k g m = Some (Inr (g', m')) \<and> \<not> Native g \<and>
    SiliconVersion d
      (call_ext d ARM_CacheEnable (call_ext d ARM_EnableVFP (call_ext d ARM_Init m)))
      = ((sv', family', revMajor', revMinor'), m1')"
  then have h: "hwinit d k g m = Some (Inr (g', m'))" and n: "\<not> Native g" and
    s: "SiliconVersion d
      (call_ext d ARM_CacheEnable (call_ext d ARM_EnableVFP (call_ext d ARM_Init m)))
      = ((sv', family', revMajor', revMinor'), m1')" by blast+
  note r = hwinit_Some[OF h s]
  from r show "Family g' = family'" by blast
  { assume "revMajor' = 0 \<and> revMinor' = 0"
    with r n show "\<not> Native g'" by blast }
  { assume "\<not> (revMajor' = 0 \<and> revMinor' = 0)"
    with r show "Native g'" by blast }
next
  assume a: "\<not> mu (UART2 g) \<and>
    SiliconVersion d
      (call_ext d ARM_CacheEnable (call_ext d ARM_EnableVFP (call_ext d ARM_Init m)))
      = ((sv', family', revMajor', revMinor'), m1') \<and>
    reg_Wait d (UART2_BASE + UARTx_UCR2) UCR2_SRST 1 1
      (reg_Write d (UART2_BASE + UARTx_UCR2) 0
        (reg_Write d (UART2_BASE + UARTx_UCR1) 0 m1')) \<noteq> None"
  then have free: "\<not> mu (UART2 g)" and
    s: "SiliconVersion d
      (call_ext d ARM_CacheEnable (call_ext d ARM_EnableVFP (call_ext d ARM_Init m)))
      = ((sv', family', revMajor', revMinor'), m1')" and
    w: "reg_Wait d (UART2_BASE + UARTx_UCR2) UCR2_SRST 1 1
      (reg_Write d (UART2_BASE + UARTx_UCR2) 0
        (reg_Write d (UART2_BASE + UARTx_UCR1) 0 m1')) \<noteq> None" by blast+
  from hwinit_returns[OF s free w, of k] obtain g1 m2 where
    h: "hwinit d k g m = Some (Inr (g1, m2))" by blast
  from hwinit_Some[OF h s] have "Family g1 = family'"
    "Native g1 = (Native g \<or> \<not> (revMajor' = 0 \<and> revMinor' = 0))" by blast+
  with h show "\<exists>g1 m2. hwinit d k g m = Some (Inr (g1, m2)) \<and>
               Family g1 = family' \<and>
               Native g1 = (Native g \<or> \<not> (revMajor' = 0 \<and> revMinor' = 0))" by blast
next
  show "hwinit d k g m \<noteq> Some (Inl p)" by (rule hwinit_no_panic)
qed

theorem identification_fields_witness:
  "(\<exists>g' m'. hwinit replay_dev clocks0 globals0
               \<lparr>regs = [0x00640000, 1, 0, 0x40, 0x02, 0], trace = []\<rparr> = Some (Inr (g', m')) \<and>
             Family g' = 0x64 \<and> \<not> Native g') \<and>
   (\<exists>g' m'. hwinit replay_dev clocks0 globals0
               \<lparr>regs = [0x00630100, 1, 0, 0x40, 0x02, 0], trace = []\<rparr> = Some (Inr (g', m')) \<and>
             Family g' = 0x63 \<and> Native g') \<and>
   (\<exists>g' m'. hwinit replay_dev clocks0 globals0
               \<lparr>regs = [0x00650001, 1, 0, 0x40, 0x02, 0], trace = []\<rparr> = Some (Inr (g', m')) \<and>
             Family g' = 0x65 \<and> Native g') \<and>
   (\<exists>g' m'. hwinit replay_dev clocks0 globals0
               \<lparr>regs = [0x00650102, 1, 0, 0x40, 0x02, 0], trace = []\<rparr> = Some (Inr (g', m')) \<and>
             Family g' = 0x65 \<and> Native g') \<and>
   (\<exists>g' m'. hwinit replay_dev clocks0 globals0
               \<lparr>regs = [0xAB7F0000, 1, 0, 0x40, 0x02, 0], trace = []\<rparr> = Some (Inr (g', m')) \<and>
             Family g' = 0x7f \<and> \<not> Native g')"
proof -
  have free: "\<not> mu (UART2 globals0)" by (simp add: globals0_def)
  have n: "\<not> Native globals0" by (simp add: globals0_def)
  have run: "\<exists>g' m'.
      hwinit replay_dev clocks0 globals0 \<lparr>regs = [v, 1, 0, 0x40, 0x02, 0], trace = []\<rparr>
        = Some (Inr (g', m')) \<and>
      Family g' = drop_bit 16 v AND 0xff \<and>
      Native g' = (\<not> (drop_bit 8 v AND 0xff = 0 \<and> v AND 0xff = 0))" for v
    using identification_fields[where d = replay_dev and k = clocks0 and g = globals0
        and m = "\<lparr>regs = [v, 1, 0, 0x40, 0x02, 0], trace = []\<rparr>" and sv' = v
        and family' = "drop_bit 16 v AND 0xff" and revMajor' = "drop_bit 8 v AND 0xff"
        and revMinor' = "v AND 0xff"
        and m1' = "\<lparr>regs = [1, 0, 0x40, 0x02, 0],
                    trace = [Extern ARM_Init, Extern ARM_EnableVFP, Extern ARM_CacheEnable,
                             Load32 USB_ANALOG_DIGPROG v]\<rparr>",
        THEN conjunct2, THEN conjunct2, THEN conjunct1, rule_format,
        OF conjI[OF free conjI[OF SiliconVersion_replay replay_console_wait]]]
      n by simp
  have a: "(drop_bit 16 (0x00640000::u32) AND 0xff) = 0x64"
          "(drop_bit 8 (0x00640000::u32) AND 0xff) = 0" "((0x00640000::u32) AND 0xff) = 0"
          "(drop_bit 16 (0x00630100::u32) AND 0xff) = 0x63"
          "(drop_bit 8 (0x00630100::u32) AND 0xff) = 1" "((0x00630100::u32) AND 0xff) = 0"
          "(drop_bit 16 (0x00650001::u32) AND 0xff) = 0x65"
          "(drop_bit 8 (0x00650001::u32) AND 0xff) = 0" "((0x00650001::u32) AND 0xff) = 1"
          "(drop_bit 16 (0x00650102::u32) AND 0xff) = 0x65"
          "(drop_bit 8 (0x00650102::u32) AND 0xff) = 1" "((0x00650102::u32) AND 0xff) = 2"
          "(drop_bit 16 (0xAB7F0000::u32) AND 0xff) = 0x7f"
          "(drop_bit 8 (0xAB7F0000::u32) AND 0xff) = 0" "((0xAB7F0000::u32) AND 0xff) = 0"
    by simp_all
  have 1: "\<exists>g' m'. hwinit replay_dev clocks0 globals0
               \<lparr>regs = [0x00640000, 1, 0, 0x40, 0x02, 0], trace = []\<rparr> = Some (Inr (g', m')) \<and>
             Family g' = 0x64 \<and> \<not> Native g'"
    using run[of "0x00640000"] unfolding a by simp
  have 2: "\<exists>g' m'. hwinit replay_dev clocks0 globals0
               \<lparr>regs = [0x00630100, 1, 0, 0x40, 0x02, 0], trace = []\<rparr> = Some (Inr (g', m')) \<and>
             Family g' = 0x63 \<and> Native g'"
    using run[of "0x00630100"] unfolding a by simp
  have 3: "\<exists>g' m'. hwinit replay_dev clocks0 globals0
               \<lparr>regs = [0x00650001, 1, 0, 0x40, 0x02, 0], trace = []\<rparr> = Some (Inr (g', m')) \<and>
             Family g' = 0x65 \<and> Native g'"
    using run[of "0x00650001"] unfolding a by simp
  have 4: "\<exists>g' m'. hwinit replay_dev clocks0 globals0
               \<lparr>regs = [0x00650102, 1, 0, 0x40, 0x02, 0], trace = []\<rparr> = Some (Inr (g', m')) \<and>
             Family g' = 0x65 \<and> Native g'"
    using run[of "0x00650102"] unfolding a by simp
  have 5: "\<exists>g' m'. hwinit replay_dev clocks0 globals0
               \<lparr>regs = [0xAB7F0000, 1, 0, 0x40, 0x02, 0], trace = []\<rparr> = Some (Inr (g', m')) \<and>
             Family g' = 0x7f \<and> \<not> Native g'"
    using run[of "0xAB7F0000"] unfolding a by simp
  from 1 2 3 4 5 show ?thesis by (intro conjI)
qed

text \<open>
  C3. When the chip-version register returns a value whose bits 23..0 encode family
  0x65, major revision 1 and minor revision 2, a \<open>hwinit\<close> that returns has recorded the
  family IMX6ULL and the native flag true, and \<open>Model\<close> then returns "i.MX6ULL"; and
  \<open>hwinit\<close> does return with that result whenever the mutex of the console UART is free
  and the wait for the UART's software reset ends. For a family code other than 0x63,
  0x64 and 0x65, \<open>Model\<close> returns "unknown".
\<close>

theorem Model_of_identified:
  "(hwinit d k g m = Some (Inr (g', m')) \<and>
    SiliconVersion d
      (call_ext d ARM_CacheEnable (call_ext d ARM_EnableVFP (call_ext d ARM_Init m)))
      = ((sv, family, revMajor, revMinor), m1) \<and>
    sv AND 0xffffff = 0x650102 \<longrightarrow>
      family = 0x65 \<and> revMajor = 1 \<and> revMinor = 2 \<and>
      Family g' = IMX6ULL \<and> Native g' \<and> Model g' = ''i.MX6ULL'') \<and>
   (Family g0 \<notin> {IMX6Q, IMX6UL, IMX6ULL} \<longrightarrow> Model g0 = ''unknown'') \<and>
   (\<not> mu (UART2 g) \<and>
    SiliconVersion d
      (call_ext d ARM_CacheEnable (call_ext d ARM_EnableVFP (call_ext d ARM_Init m)))
      = ((sv, family, revMajor, revMinor), m1) \<and>
    sv AND 0xffffff = 0x650102 \<and>
    reg_Wait d (UART2_BASE + UARTx_UCR2) UCR2_SRST 1 1
      (reg_Write d (UART2_BASE + UARTx_UCR2) 0
        (reg_Write d (UART2_BASE + UARTx_UCR1) 0 m1)) \<noteq> None \<longrightarrow>
      (\<exists>g1 m2. hwinit d k g m = Some (Inr (g1, m2)) \<and>
               Family g1 = IMX6ULL \<and> Native g1 \<and> Model g1 = ''i.MX6ULL''))"
proof -
  have A: "family = 0x65 \<and> revMajor = 1 \<and> revMinor = 2 \<and>
      Family g' = IMX6ULL \<and> Native g' \<and> Model g' = ''i.MX6ULL''"
    if h: "hwinit d k g m = Some (Inr (g', m'))" and
       s: "SiliconVersion d
            (call_ext d ARM_CacheEnable (call_ext d ARM_EnableVFP (call_ext d ARM_Init m)))
            = ((sv, family, revMajor, revMinor), m1)" and
       v: "sv AND 0xffffff = 0x650102"
    for g' m'
  proof -
    from SiliconVersion_eq[OF s] low24_fields[OF v]
    have f: "family = 0x65" "revMajor = 1" "revMinor = 2" by simp_all
    from hwinit_Some[OF h s] f have r: "Family g' = 0x65" "Native g'" by simp_all
    from r have "Model g' = ''i.MX6ULL''" by (simp add: Model_def)
    with f r show ?thesis by simp
  qed
  have B: "Family g0 \<notin> {IMX6Q, IMX6UL, IMX6ULL} \<longrightarrow> Model g0 = ''unknown''"
    by (simp add: Model_def)
  have C: "\<exists>g1 m2. hwinit d k g m = Some (Inr (g1, m2)) \<and>
               Family g1 = IMX6ULL \<and> Native g1 \<and> Model g1 = ''i.MX6ULL''"
    if free: "\<not> mu (UART2 g)" and
       s: "SiliconVersion d
            (call_ext d ARM_CacheEnable (call_ext d ARM_EnableVFP (call_ext d ARM_Init m)))
            = ((sv, family, revMajor, revMinor), m1)" and
       v: "sv AND 0xffffff = 0x650102" and
       w: "reg_Wait d (UART2_BASE + UARTx_UCR2) UCR2_SRST 1 1
      (reg_Write d (UART2_BASE + UARTx_UCR2) 0
        (reg_Write d (UART2_BASE + UARTx_UCR1) 0 m1)) \<noteq> None"
  proof -
    from hwinit_returns[OF s free w, of k] obtain g1 m2 where
      h: "hwinit d k g m = Some (Inr (g1, m2))" by blast
    from A[OF h s v] h show ?thesis by blast
  qed
  from A B C show ?thesis by blast
qed

theorem Model_of_identified_witness:
  "(\<exists>g' m'. hwinit replay_dev clocks0 globals0
               \<lparr>regs = [0x00650102, 1, 0, 0x40, 0x02, 0], trace = []\<rparr> = Some (Inr (g', m')) \<and>
             Family g' = IMX6ULL \<and> Native g' \<and> Model g' = ''i.MX6ULL'') \<and>
   Model (globals0\<lparr>Family := 0x66\<rparr>) = ''unknown''"
proof -
  have free: "\<not> mu (UART2 globals0)" by (simp add: globals0_def)
  have v: "(0x00650102::u32) AND 0xffffff = 0x650102" by simp
  have u: "Family (globals0\<lparr>Family := 0x66\<rparr>) \<notin> {IMX6Q, IMX6UL, IMX6ULL}" by simp
  note T = Model_of_identified[where d = replay_dev and k = clocks0 and g = globals0
      and m = "\<lparr>regs = [0x00650102, 1, 0, 0x40, 0x02, 0], trace = []\<rparr>"
      and ?g0.0 = "globals0\<lparr>Family := 0x66\<rparr>"]
  have "\<exists>g1 m2. hwinit replay_dev clocks0 globals0
               \<lparr>regs = [0x00650102, 1, 0, 0x40, 0x02, 0], trace = []\<rparr> = Some (Inr (g1, m2)) \<and>
             Family g1 = IMX6ULL \<and> Native g1 \<and> Model g1 = ''i.MX6ULL''"
    by (rule T[THEN conjunct2, THEN conjunct2, rule_format,
          OF conjI[OF free conjI[OF SiliconVersion_replay conjI[OF v replay_console_wait]]]])
  moreover have "Model (globals0\<lparr>Family := 0x66\<rparr>) = ''unknown''"
    using T[THEN conjunct2, THEN conjunct1, rule_format, OF u] .
  ultimately show ?thesis by blast
qed

text \<open>
  C5. \<open>initRNG\<close> binds the random-data function to the hardware generator (after
  initialising it) exactly when the recorded family is IMX6ULL and the native flag is
  true; in every other case it binds it to the software generator \<open>getLCGData\<close> and does
  not touch the hardware generator. In particular, after a bring-up from the start state
  in which the chip-version register returned family 0x65 with both revision fields 0,
  the native flag is false and the binding is the software generator; and that bring-up
  does return whenever the mutex of the console UART is free and the wait for the UART's
  software reset ends.
\<close>

theorem initRNG_binding:
  "((getRandomDataFn (fst (initRNG d g m)) = RNGB_getRandomData) =
      (Family g = IMX6ULL \<and> Native g)) \<and>
   ((getRandomDataFn (fst (initRNG d g m)) = getLCGData) =
      (\<not> (Family g = IMX6ULL \<and> Native g))) \<and>
   trace (snd (initRNG d g m)) =
     trace m @ (if Family g = IMX6ULL \<and> Native g then [Extern RNGB_Init] else []) \<and>
   (hwinit d k g0 m0 = Some (Inr (g', m')) \<and> \<not> Native g0 \<and>
    SiliconVersion d
      (call_ext d ARM_CacheEnable (call_ext d ARM_EnableVFP (call_ext d ARM_Init m0)))
      = ((sv, family, revMajor, revMinor), m1) \<and>
    sv AND 0xffffff = 0x650000 \<longrightarrow>
      Family g' = IMX6ULL \<and> \<not> Native g' \<and>
      getRandomDataFn (fst (initRNG d g' m')) = getLCGData) \<and>
   (\<not> mu (UART2 g0) \<and> \<not> Native g0 \<and>
    SiliconVersion d
      (call_ext d ARM_CacheEnable (call_ext d ARM_EnableVFP (call_ext d ARM_Init m0)))
      = ((sv, family, revMajor, revMinor), m1) \<and>
    sv AND 0xffffff = 0x650000 \<and>
    reg_Wait d (UART2_BASE + UARTx_UCR2) UCR2_SRST 1 1
      (reg_Write d (UART2_BASE + UARTx_UCR2) 0
        (reg_Write d (UART2_BASE + UARTx_UCR1) 0 m1)) \<noteq> None \<longrightarrow>
      (\<exists>g1 m2. hwinit d k g0 m0 = Some (Inr (g1, m2)) \<and>
               Family g1 = IMX6ULL \<and> \<not> Native g1 \<and>
               getRandomDataFn (fst (initRNG d g1 m2)) = getLCGData))"
proof (intro conjI impI)
  show "(getRandomDataFn (fst (initRNG d g m)) = RNGB_getRandomData) =
      (Family g = IMX6ULL \<and> Native g)"
    by (simp add: initRNG_def)
  show "(getRandomDataFn (fst (initRNG d g m)) = getLCGData) =
      (\<not> (Family g = IMX6ULL \<and> Native g))"
    by (simp add: initRNG_def)
  show "trace (snd (initRNG d g m)) =
     trace m @ (if Family g = IMX6ULL \<and> Native g then [Extern RNGB_Init] else [])"
    by (simp add: initRNG_def)
next
  assume a: "hwinit d k g0 m0 = Some (Inr (g', m')) \<and> \<not> Native g0 \<and>
    SiliconVersion d
      (call_ext d ARM_CacheEnable (call_ext d ARM_EnableVFP (call_ext d ARM_Init m0)))
      = ((sv, family, revMajor, revMinor), m1) \<and>
    sv AND 0xffffff = 0x650000"
  then have h: "hwinit d k g0 m0 = Some (Inr (g', m'))" and n: "\<not> Native g0" and
    s: "SiliconVersion d
      (call_ext d ARM_CacheEnable (call_ext d ARM_EnableVFP (call_ext d ARM_Init m0)))
      = ((sv, family, revMajor, revMinor), m1)" and v: "sv AND 0xffffff = 0x650000" by blast+
  from SiliconVersion_eq[OF s] low24_fields[OF v]
  have f: "family = 0x65" "revMajor = 0" "revMinor = 0" by simp_all
  from hwinit_Some[OF h s] f n have r: "Family g' = 0x65" "\<not> Native g'" by simp_all
  from r show "Family g' = IMX6ULL" by simp
  from r show "\<not> Native g'" by blast
  from r show "getRandomDataFn (fst (initRNG d g' m')) = getLCGData"
    by (simp add: initRNG_def)
next
  assume a: "\<not> mu (UART2 g0) \<and> \<not> Native g0 \<and>
    SiliconVersion d
      (call_ext d ARM_CacheEnable (call_ext d ARM_EnableVFP (call_ext d ARM_Init m0)))
      = ((sv, family, revMajor, revMinor), m1) \<and>
    sv AND 0xffffff = 0x650000 \<and>
    reg_Wait d (UART2_BASE + UARTx_UCR2) UCR2_SRST 1 1
      (reg_Write d (UART2_BASE + UARTx_UCR2) 0
        (reg_Write d (UART2_BASE + UARTx_UCR1) 0 m1)) \<noteq> None"
  then have free: "\<not> mu (UART2 g0)" and n: "\<not> Native g0" and
    s: "SiliconVersion d
      (call_ext d ARM_CacheEnable (call_ext d ARM_EnableVFP (call_ext d ARM_Init m0)))
      = ((sv, family, revMajor, revMinor), m1)" and v: "sv AND 0xffffff = 0x650000" and
    w: "reg_Wait d (UART2_BASE + UARTx_UCR2) UCR2_SRST 1 1
      (reg_Write d (UART2_BASE + UARTx_UCR2) 0
        (reg_Write d (UART2_BASE + UARTx_UCR1) 0 m1)) \<noteq> None" by blast+
  from hwinit_returns[OF s free w, of k] obtain g1 m2 where
    h: "hwinit d k g0 m0 = Some (Inr (g1, m2))" by blast
  from SiliconVersion_eq[OF s] low24_fields[OF v]
  have f: "family = 0x65" "revMajor = 0" "revMinor = 0" by simp_all
  from hwinit_Some[OF h s] f n have r: "Family g1 = 0x65" "\<not> Native g1" by simp_all
  then have "Family g1 = IMX6ULL \<and> \<not> Native g1 \<and>
             getRandomDataFn (fst (initRNG d g1 m2)) = getLCGData"
    by (simp add: initRNG_def)
  with h show "\<exists>g1 m2. hwinit d k g0 m0 = Some (Inr (g1, m2)) \<and>
               Family g1 = IMX6ULL \<and> \<not> Native g1 \<and>
               getRandomDataFn (fst (initRNG d g1 m2)) = getLCGData" by blast
qed

theorem initRNG_binding_witness:
  "\<exists>g' m'. hwinit replay_dev clocks0 globals0
               \<lparr>regs = [0x00650000, 1, 0, 0x40, 0x02, 0], trace = []\<rparr> = Some (Inr (g', m')) \<and>
           Family g' = IMX6ULL \<and> \<not> Native g' \<and>
           getRandomDataFn (fst (initRNG replay_dev g' m')) = getLCGData"
proof -
  have free: "\<not> mu (UART2 globals0)" by (simp add: globals0_def)
  have n: "\<not> Native globals0" by (simp add: globals0_def)
  have v: "(0x00650000::u32) AND 0xffffff = 0x650000" by simp
  show ?thesis
    by (rule initRNG_binding[where d = replay_dev and k = clocks0 and ?g0.0 = globals0
          and ?m0.0 = "\<lparr>regs = [0x00650000, 1, 0, 0x40, 0x02, 0], trace = []\<rparr>",
          THEN conjunct2, THEN conjunct2, THEN conjunct2, THEN conjunct2, rule_format,
          OF conjI[OF free conjI[OF n conjI[OF SiliconVersion_replay
               conjI[OF v replay_console_wait]]]]])
qed

text \<open>
  C8. Bring-up never panics, and it returns whenever the mutex of the console UART is
  free and the wait for the UART's software reset ends. A bring-up that returns has
  loaded the chip-version register once, has recorded the family and the native flag from
  the value loaded, and ends with exactly one timer call, after the identification and the
  console initialisation: for the family IMX6Q it starts the global timers; for the
  families IMX6UL and IMX6ULL it starts the generic timers at \<open>SYS_CNT_BASE\<close>, with
  62500000 Hz when the recorded native flag is false and 8000000 Hz when it is true.
\<close>

theorem hwinit_timer:
  "(hwinit d k g m = Some (Inr (g', m')) \<and>
    SiliconVersion d
      (call_ext d ARM_CacheEnable (call_ext d ARM_EnableVFP (call_ext d ARM_Init m)))
      = ((sv, family, revMajor, revMinor), m1) \<longrightarrow>
      Family g' = family \<and>
      Native g' = (Native g \<or> \<not> (revMajor = 0 \<and> revMinor = 0)) \<and>
      (\<exists>es t. trace m' = trace m @
                   [Extern ARM_Init, Extern ARM_EnableVFP, Extern ARM_CacheEnable,
                    Load32 USB_ANALOG_DIGPROG sv] @ es @ [Extern t] \<and>
                (\<forall>c. Extern c \<notin> set es) \<and>
                (Family g' = IMX6Q \<longrightarrow> t = ARM_InitGlobalTimers) \<and>
                (Family g' = IMX6UL \<or> Family g' = IMX6ULL \<longrightarrow>
                   (\<not> Native g' \<longrightarrow> t = ARM_InitGenericTimers SYS_CNT_BASE 62500000) \<and>
                   (Native g' \<longrightarrow> t = ARM_InitGenericTimers SYS_CNT_BASE 8000000)))) \<and>
   (\<not> mu (UART2 g) \<and>
    SiliconVersion d
      (call_ext d ARM_CacheEnable (call_ext d ARM_EnableVFP (call_ext d ARM_Init m)))
      = ((sv, family, revMajor, revMinor), m1) \<and>
    reg_Wait d (UART2_BASE + UARTx_UCR2) UCR2_SRST 1 1
      (reg_Write d (UART2_BASE + UARTx_UCR2) 0
        (reg_Write d (UART2_BASE + UARTx_UCR1) 0 m1)) \<noteq> None \<longrightarrow>
      (\<exists>g' m' es t.
          hwinit d k g m = Some (Inr (g', m')) \<and>
          Family g' = family \<and>
          Native g' = (Native g \<or> \<not> (revMajor = 0 \<and> revMinor = 0)) \<and>
          trace m' = trace m @
             [Extern ARM_Init, Extern ARM_EnableVFP, Extern ARM_CacheEnable,
              Load32 USB_ANALOG_DIGPROG sv] @ es @ [Extern t] \<and>
          (\<forall>c. Extern c \<notin> set es) \<and>
          (family = IMX6Q \<longrightarrow> t = ARM_InitGlobalTimers) \<and>
          (family = IMX6UL \<or> family = IMX6ULL \<longrightarrow>
             (\<not> Native g \<and> revMajor = 0 \<and> revMinor = 0 \<longrightarrow>
                t = ARM_InitGenericTimers SYS_CNT_BASE 62500000) \<and>
             (Native g \<or> \<not> (revMajor = 0 \<and> revMinor = 0) \<longrightarrow>
                t = ARM_InitGenericTimers SYS_CNT_BASE 8000000)))) \<and>
   hwinit d k g m \<noteq> Some (Inl p)"
proof -
  have A: "Family g' = family \<and>
      Native g' = (Native g \<or> \<not> (revMajor = 0 \<and> revMinor = 0)) \<and>
      (\<exists>es t. trace m' = trace m @
                   [Extern ARM_Init, Extern ARM_EnableVFP, Extern ARM_CacheEnable,
                    Load32 USB_ANALOG_DIGPROG sv] @ es @ [Extern t] \<and>
                (\<forall>c. Extern c \<notin> set es) \<and>
                (Family g' = IMX6Q \<longrightarrow> t = ARM_InitGlobalTimers) \<and>
                (Family g' = IMX6UL \<or> Family g' = IMX6ULL \<longrightarrow>
                   (\<not> Native g' \<longrightarrow> t = ARM_InitGenericTimers SYS_CNT_BASE 62500000) \<and>
                   (Native g' \<longrightarrow> t = ARM_InitGenericTimers SYS_CNT_BASE 8000000)))"
    if h: "hwinit d k g m = Some (Inr (g', m'))" and
       s: "SiliconVersion d
            (call_ext d ARM_CacheEnable (call_ext d ARM_EnableVFP (call_ext d ARM_Init m)))
            = ((sv, family, revMajor, revMinor), m1)"
    for g' m'
  proof -
    let ?t = "if family = IMX6Q then ARM_InitGlobalTimers
              else if family = IMX6UL \<or> family = IMX6ULL then
                (if \<not> Native g' then ARM_InitGenericTimers SYS_CNT_BASE 62500000
                 else ARM_InitGenericTimers SYS_CNT_BASE 8000000)
              else ARM_InitGlobalTimers"
    from hwinit_Some[OF h s] obtain es where
      f: "Family g' = family" and
      n: "Native g' = (Native g \<or> revMajor \<noteq> 0 \<or> revMinor \<noteq> 0)" and
      t: "trace m' = trace m1 @ es @ [Extern ?t]" and e: "\<forall>c. Extern c \<notin> set es"
      by blast
    from SiliconVersion_eq[OF s] have
      1: "trace m1 = trace m @ [Extern ARM_Init, Extern ARM_EnableVFP, Extern ARM_CacheEnable,
            Load32 USB_ANALOG_DIGPROG sv]"
      by simp
    have "trace m' = trace m @
            [Extern ARM_Init, Extern ARM_EnableVFP, Extern ARM_CacheEnable,
             Load32 USB_ANALOG_DIGPROG sv] @ es @ [Extern ?t]"
      using t 1 by simp
    moreover have "Family g' = IMX6Q \<longrightarrow> ?t = ARM_InitGlobalTimers" using f by simp
    moreover have "Family g' = IMX6UL \<or> Family g' = IMX6ULL \<longrightarrow>
                   (\<not> Native g' \<longrightarrow> ?t = ARM_InitGenericTimers SYS_CNT_BASE 62500000) \<and>
                   (Native g' \<longrightarrow> ?t = ARM_InitGenericTimers SYS_CNT_BASE 8000000)"
      using f by auto
    moreover have "Native g' = (Native g \<or> \<not> (revMajor = 0 \<and> revMinor = 0))"
      using n by blast
    ultimately show ?thesis using f e by blast
  qed
  have B: "\<exists>g' m' es t.
          hwinit d k g m = Some (Inr (g', m')) \<and>
          Family g' = family \<and>
          Native g' = (Native g \<or> \<not> (revMajor = 0 \<and> revMinor = 0)) \<and>
          trace m' = trace m @
             [Extern ARM_Init, Extern ARM_EnableVFP, Extern ARM_CacheEnable,
              Load32 USB_ANALOG_DIGPROG sv] @ es @ [Extern t] \<and>
          (\<forall>c. Extern c \<notin> set es) \<and>
          (family = IMX6Q \<longrightarrow> t = ARM_InitGlobalTimers) \<and>
          (family = IMX6UL \<or> family = IMX6ULL \<longrightarrow>
             (\<not> Native g \<and> revMajor = 0 \<and> revMinor = 0 \<longrightarrow>
                t = ARM_InitGenericTimers SYS_CNT_BASE 62500000) \<and>
             (Native g \<or> \<not> (revMajor = 0 \<and> revMinor = 0) \<longrightarrow>
                t = ARM_InitGenericTimers SYS_CNT_BASE 8000000))"
    if free: "\<not> mu (UART2 g)" and
       s: "SiliconVersion d
            (call_ext d ARM_CacheEnable (call_ext d ARM_EnableVFP (call_ext d ARM_Init m)))
            = ((sv, family, revMajor, revMinor), m1)" and
       w: "reg_Wait d (UART2_BASE + UARTx_UCR2) UCR2_SRST 1 1
            (reg_Write d (UART2_BASE + UARTx_UCR2) 0
              (reg_Write d (UART2_BASE + UARTx_UCR1) 0 m1)) \<noteq> None"
  proof -
    from hwinit_returns[OF s free w, of k] obtain g1 m2 where
      h: "hwinit d k g m = Some (Inr (g1, m2))" by blast
    from A[OF h s] obtain es t where
      f: "Family g1 = family" and
      n: "Native g1 = (Native g \<or> \<not> (revMajor = 0 \<and> revMinor = 0))" and
      t: "trace m2 = trace m @
                   [Extern ARM_Init, Extern ARM_EnableVFP, Extern ARM_CacheEnable,
                    Load32 USB_ANALOG_DIGPROG sv] @ es @ [Extern t]" and
      e: "\<forall>c. Extern c \<notin> set es" and
      q: "Family g1 = IMX6Q \<longrightarrow> t = ARM_InitGlobalTimers" and
      u: "Family g1 = IMX6UL \<or> Family g1 = IMX6ULL \<longrightarrow>
                   (\<not> Native g1 \<longrightarrow> t = ARM_InitGenericTimers SYS_CNT_BASE 62500000) \<and>
                   (Native g1 \<longrightarrow> t = ARM_InitGenericTimers SYS_CNT_BASE 8000000)"
      by blast
    from q f have q': "family = IMX6Q \<longrightarrow> t = ARM_InitGlobalTimers" by simp
    from u f n have u': "family = IMX6UL \<or> family = IMX6ULL \<longrightarrow>
             (\<not> Native g \<and> revMajor = 0 \<and> revMinor = 0 \<longrightarrow>
                t = ARM_InitGenericTimers SYS_CNT_BASE 62500000) \<and>
             (Native g \<or> \<not> (revMajor = 0 \<and> revMinor = 0) \<longrightarrow>
                t = ARM_InitGenericTimers SYS_CNT_BASE 8000000)" by blast
    from h f n t e q' u' show ?thesis by blast
  qed
  from A B hwinit_no_panic[of d k g m p] show ?thesis by blast
qed

theorem hwinit_timer_witness:
  "(\<exists>g' m' es.
      hwinit replay_dev clocks0 globals0
        \<lparr>regs = [0x00630100, 1, 0, 0x40, 0x02, 0], trace = []\<rparr> = Some (Inr (g', m')) \<and>
      Family g' = IMX6Q \<and> Native g' \<and>
      trace m' = [Extern ARM_Init, Extern ARM_EnableVFP, Extern ARM_CacheEnable,
                  Load32 USB_ANALOG_DIGPROG 0x00630100] @ es @
                 [Extern ARM_InitGlobalTimers] \<and>
      (\<forall>c. Extern c \<notin> set es)) \<and>
   (\<exists>g' m' es.
      hwinit replay_dev clocks0 globals0
        \<lparr>regs = [0x00640000, 1, 0, 0x40, 0x02, 0], trace = []\<rparr> = Some (Inr (g', m')) \<and>
      Family g' = IMX6UL \<and> \<not> Native g' \<and>
      trace m' = [Extern ARM_Init, Extern ARM_EnableVFP, Extern ARM_CacheEnable,
                  Load32 USB_ANALOG_DIGPROG 0x00640000] @ es @
                 [Extern (ARM_InitGenericTimers SYS_CNT_BASE 62500000)] \<and>
      (\<forall>c. Extern c \<notin> set es)) \<and>
   (\<exists>g' m' es.
      hwinit replay_dev clocks0 globals0
        \<lparr>regs = [0x00640100, 1, 0, 0x40, 0x02, 0], trace = []\<rparr> = Some (Inr (g', m')) \<and>
      Family g' = IMX6UL \<and> Native g' \<and>
      trace m' = [Extern ARM_Init, Extern ARM_EnableVFP, Extern ARM_CacheEnable,
                  Load32 USB_ANALOG_DIGPROG 0x00640100] @ es @
                 [Extern (ARM_InitGenericTimers SYS_CNT_BASE 8000000)] \<and>
      (\<forall>c. Extern c \<notin> set es)) \<and>
   (\<exists>g' m' es.
      hwinit replay_dev clocks0 globals0
        \<lparr>regs = [0x00650000, 1, 0, 0x40, 0x02, 0], trace = []\<rparr> = Some (Inr (g', m')) \<and>
      Family g' = IMX6ULL \<and> \<not> Native g' \<and>
      trace m' = [Extern ARM_Init, Extern ARM_EnableVFP, Extern ARM_CacheEnable,
                  Load32 USB_ANALOG_DIGPROG 0x00650000] @ es @
                 [Extern (ARM_InitGenericTimers SYS_CNT_BASE 62500000)] \<and>
      (\<forall>c. Extern c \<notin> set es)) \<and>
   (\<exists>g' m' es.
      hwinit replay_dev clocks0 globals0
        \<lparr>regs = [0x00650102, 1, 0, 0x40, 0x02, 0], trace = []\<rparr> = Some (Inr (g', m')) \<and>
      Family g' = IMX6ULL \<and> Native g' \<and>
      trace m' = [Extern ARM_Init, Extern ARM_EnableVFP, Extern ARM_CacheEnable,
                  Load32 USB_ANALOG_DIGPROG 0x00650102] @ es @
                 [Extern (ARM_InitGenericTimers SYS_CNT_BASE 8000000)] \<and>
      (\<forall>c. Extern c \<notin> set es))"
proof -
  have free: "\<not> mu (UART2 globals0)" by (simp add: globals0_def)
  have n: "\<not> Native globals0" by (simp add: globals0_def)
  have run: "\<exists>g' m' es t.
      hwinit replay_dev clocks0 globals0 \<lparr>regs = [v, 1, 0, 0x40, 0x02, 0], trace = []\<rparr>
        = Some (Inr (g', m')) \<and>
      Family g' = drop_bit 16 v AND 0xff \<and>
      Native g' = (\<not> (drop_bit 8 v AND 0xff = 0 \<and> v AND 0xff = 0)) \<and>
      trace m' = [Extern ARM_Init, Extern ARM_EnableVFP, Extern ARM_CacheEnable,
                  Load32 USB_ANALOG_DIGPROG v] @ es @ [Extern t] \<and>
      (\<forall>c. Extern c \<notin> set es) \<and>
      (drop_bit 16 v AND 0xff = IMX6Q \<longrightarrow> t = ARM_InitGlobalTimers) \<and>
      (drop_bit 16 v AND 0xff = IMX6UL \<or> drop_bit 16 v AND 0xff = IMX6ULL \<longrightarrow>
         (drop_bit 8 v AND 0xff = 0 \<and> v AND 0xff = 0 \<longrightarrow>
            t = ARM_InitGenericTimers SYS_CNT_BASE 62500000) \<and>
         (\<not> (drop_bit 8 v AND 0xff = 0 \<and> v AND 0xff = 0) \<longrightarrow>
            t = ARM_InitGenericTimers SYS_CNT_BASE 8000000))" for v
    using hwinit_timer[where d = replay_dev and k = clocks0 and g = globals0
        and m = "\<lparr>regs = [v, 1, 0, 0x40, 0x02, 0], trace = []\<rparr>" and sv = v
        and family = "drop_bit 16 v AND 0xff" and revMajor = "drop_bit 8 v AND 0xff"
        and revMinor = "v AND 0xff"
        and ?m1.0 = "\<lparr>regs = [1, 0, 0x40, 0x02, 0],
                    trace = [Extern ARM_Init, Extern ARM_EnableVFP, Extern ARM_CacheEnable,
                             Load32 USB_ANALOG_DIGPROG v]\<rparr>",
        THEN conjunct2, THEN conjunct1, rule_format,
        OF conjI[OF free conjI[OF SiliconVersion_replay replay_console_wait]]]
      n by simp
  have a: "(drop_bit 16 (0x00630100::u32) AND 0xff) = 0x63"
          "(drop_bit 8 (0x00630100::u32) AND 0xff) = 1" "((0x00630100::u32) AND 0xff) = 0"
          "(drop_bit 16 (0x00640000::u32) AND 0xff) = 0x64"
          "(drop_bit 8 (0x00640000::u32) AND 0xff) = 0" "((0x00640000::u32) AND 0xff) = 0"
          "(drop_bit 16 (0x00640100::u32) AND 0xff) = 0x64"
          "(drop_bit 8 (0x00640100::u32) AND 0xff) = 1" "((0x00640100::u32) AND 0xff) = 0"
          "(drop_bit 16 (0x00650000::u32) AND 0xff) = 0x65"
          "(drop_bit 8 (0x00650000::u32) AND 0xff) = 0" "((0x00650000::u32) AND 0xff) = 0"
          "(drop_bit 16 (0x00650102::u32) AND 0xff) = 0x65"
          "(drop_bit 8 (0x00650102::u32) AND 0xff) = 1" "((0x00650102::u32) AND 0xff) = 2"
    by simp_all
  have 1: "\<exists>g' m' es.
      hwinit replay_dev clocks0 globals0
        \<lparr>regs = [0x00630100, 1, 0, 0x40, 0x02, 0], trace = []\<rparr> = Some (Inr (g', m')) \<and>
      Family g' = IMX6Q \<and> Native g' \<and>
      trace m' = [Extern ARM_Init, Extern ARM_EnableVFP, Extern ARM_CacheEnable,
                  Load32 USB_ANALOG_DIGPROG 0x00630100] @ es @
                 [Extern ARM_InitGlobalTimers] \<and>
      (\<forall>c. Extern c \<notin> set es)"
    using run[of "0x00630100"] unfolding a by simp
  have 2: "\<exists>g' m' es.
      hwinit replay_dev clocks0 globals0
        \<lparr>regs = [0x00640000, 1, 0, 0x40, 0x02, 0], trace = []\<rparr> = Some (Inr (g', m')) \<and>
      Family g' = IMX6UL \<and> \<not> Native g' \<and>
      trace m' = [Extern ARM_Init, Extern ARM_EnableVFP, Extern ARM_CacheEnable,
                  Load32 USB_ANALOG_DIGPROG 0x00640000] @ es @
                 [Extern (ARM_InitGenericTimers SYS_CNT_BASE 62500000)] \<and>
      (\<forall>c. Extern c \<notin> set es)"
    using run[of "0x00640000"] unfolding a by simp
  have 3: "\<exists>g' m' es.
      hwinit replay_dev clocks0 globals0
        \<lparr>regs = [0x00640100, 1, 0, 0x40, 0x02, 0], trace = []\<rparr> = Some (Inr (g', m')) \<and>
      Family g' = IMX6UL \<and> Native g' \<and>
      trace m' = [Extern ARM_Init, Extern ARM_EnableVFP, Extern ARM_CacheEnable,
                  Load32 USB_ANALOG_DIGPROG 0x00640100] @ es @
                 [Extern (ARM_InitGenericTimers SYS_CNT_BASE 8000000)] \<and>
      (\<forall>c. Extern c \<notin> set es)"
    using run[of "0x00640100"] unfolding a by simp
  have 4: "\<exists>g' m' es.
      hwinit replay_dev clocks0 globals0
        \<lparr>regs = [0x00650000, 1, 0, 0x40, 0x02, 0], trace = []\<rparr> = Some (Inr (g', m')) \<and>
      Family g' = IMX6ULL \<and> \<not> Native g' \<and>
      trace m' = [Extern ARM_Init, Extern ARM_EnableVFP, Extern ARM_CacheEnable,
                  Load32 USB_ANALOG_DIGPROG 0x00650000] @ es @
                 [Extern (ARM_InitGenericTimers SYS_CNT_BASE 62500000)] \<and>
      (\<forall>c. Extern c \<notin> set es)"
    using run[of "0x00650000"] unfolding a by simp
  have 5: "\<exists>g' m' es.
      hwinit replay_dev clocks0 globals0
        \<lparr>regs = [0x00650102, 1, 0, 0x40, 0x02, 0], trace = []\<rparr> = Some (Inr (g', m')) \<and>
      Family g' = IMX6ULL \<and> Native g' \<and>
      trace m' = [Extern ARM_Init, Extern ARM_EnableVFP, Extern ARM_CacheEnable,
                  Load32 USB_ANALOG_DIGPROG 0x00650102] @ es @
                 [Extern (ARM_InitGenericTimers SYS_CNT_BASE 8000000)] \<and>
      (\<forall>c. Extern c \<notin> set es)"
    using run[of "0x00650102"] unfolding a by simp
  from 1 2 3 4 5 show ?thesis by (intro conjI)
qed

section \<open>Reboot\<close>

lemma Reboot_trace:
  "trace (Reboot d m) =
     trace m @ [Load32 SRC_SCR (fst (load32 d (regs m) SRC_SCR)),
                Store32 SRC_SCR (fst (load32 d (regs m) SRC_SCR) AND NOT 1),
                Store16 WDOG1_WCR 0]"
  by (simp add: Reboot_def reg_Clear_def reg_Read_def reg_Write_def reg_Write16_def
      split: prod.splits)

lemma Reboot_ram_regs:
  "regs (Reboot ram_dev m) =
     ram_store16 (ram_store32 (regs m) SRC_SCR (ram_load32 (regs m) SRC_SCR AND NOT 1))
       WDOG1_WCR 0"
  by (simp add: Reboot_def reg_Clear_def reg_Read_def reg_Write_def reg_Write16_def ram_dev_def)

lemma ram_scr_bit:
  "\<not> bit (ram_load32 (ram_store16 (ram_store32 h SRC_SCR (v AND NOT 1)) WDOG1_WCR w) SRC_SCR) 0"
  by (simp add: ram_load32_def ram_store16_def ram_store32_def bit_simps)

lemma ram_wcr: "ram_load16 (ram_store16 h WDOG1_WCR 0) WDOG1_WCR = 0"
  by (simp add: ram_load16_def ram_store16_def)

text \<open>
  C6. Whatever the hardware does, \<open>Reboot\<close> makes three accesses, in this order: it loads
  the reset-control register SRC_SCR, stores the loaded value back with the
  warm-reset-enable bit (bit 0) cleared, and then stores 0 to the watchdog-control
  register WDOG1_WCR with a 16-bit access. On the mock register backend, after the call
  the warm-reset-enable bit of SRC_SCR reads 0 and WDOG1_WCR reads 0.
\<close>

theorem Reboot_effect:
  "trace (Reboot d m) =
     trace m @ [Load32 SRC_SCR (fst (load32 d (regs m) SRC_SCR)),
                Store32 SRC_SCR (fst (load32 d (regs m) SRC_SCR) AND NOT 1),
                Store16 WDOG1_WCR 0] \<and>
   \<not> bit (fst (load32 d (regs m) SRC_SCR) AND NOT 1) SCR_WARM_RESET_ENABLE \<and>
   \<not> bit (ram_load32 (regs (Reboot ram_dev r)) SRC_SCR) SCR_WARM_RESET_ENABLE \<and>
   ram_load16 (regs (Reboot ram_dev r)) WDOG1_WCR = 0"
  using Reboot_trace[of d m] ram_scr_bit ram_wcr
  by (simp only: Reboot_ram_regs SCR_WARM_RESET_ENABLE_def) (simp add: bit_simps)

section \<open>Polled transmit\<close>

lemma txEmpty_fst: "fst (txEmpty d hw m) = (\<not> bit (fst (load32 d (regs m) (uts hw))) 6)"
  by (simp add: txEmpty_def reg_Get_def reg_Read_def field1_eq_0_iff split: prod.splits)

lemma txEmpty_trace:
  "trace (snd (txEmpty d hw m)) = trace m @ [Load32 (uts hw) (fst (load32 d (regs m) (uts hw)))]"
  by (simp add: txEmpty_def reg_Get_def reg_Read_def split: prod.splits)

lemma Write_polls_Suc: "Write_polls d hw (Suc n) m = snd (txEmpty d hw (Write_polls d hw n m))"
  by (induction n arbitrary: m) simp_all

lemma Write_polls_trace:
  "trace (Write_polls d hw n m) = trace m @ map (\<lambda>i. Load32 (uts hw) (uts_value d hw i m)) [0..<n]"
proof (induction n)
  case 0
  show ?case by simp
next
  case (Suc n)
  have "trace (Write_polls d hw (Suc n) m) =
          trace (Write_polls d hw n m) @ [Load32 (uts hw) (uts_value d hw n m)]"
    by (simp only: Write_polls_Suc txEmpty_trace uts_value_def)
  with Suc show ?case by simp
qed

lemma busy_iff: "fst (txEmpty d hw (Write_polls d hw i m)) = (\<not> bit (uts_value d hw i m) 6)"
  by (simp add: txEmpty_fst uts_value_def)

lemma uts_value_shift: "uts_value d hw (Suc i) m = uts_value d hw i (snd (txEmpty d hw m))"
  by (simp add: uts_value_def)

lemma Write_poll_unfold:
  "Write_poll d hw m =
     (if fst (txEmpty d hw m) then Write_poll d hw (snd (txEmpty d hw m))
      else Some (snd (txEmpty d hw m)))"
  by (subst Write_poll.simps) (simp add: case_prod_beta)

lemma Write_poll_returns:
  "(\<forall>i<n. \<not> bit (uts_value d hw i m) 6) \<Longrightarrow> bit (uts_value d hw n m) 6 \<Longrightarrow>
     Write_poll d hw m = Some (Write_polls d hw (Suc n) m)"
proof (induction n arbitrary: m)
  case 0
  then have "\<not> fst (txEmpty d hw m)" using busy_iff[of d hw 0 m] by simp
  then show ?case
    by (subst Write_poll_unfold) simp
next
  case (Suc n)
  let ?m1 = "snd (txEmpty d hw m)"
  from Suc.prems(1) have "\<not> bit (uts_value d hw 0 m) 6" by blast
  then have b: "fst (txEmpty d hw m)" using busy_iff[of d hw 0 m] by simp
  have 1: "\<forall>i<n. \<not> bit (uts_value d hw i ?m1) 6"
    using Suc.prems(1) by (auto simp: uts_value_shift[symmetric])
  have 2: "bit (uts_value d hw n ?m1) 6"
    using Suc.prems(2) by (simp add: uts_value_shift)
  have "Write_poll d hw m = Write_poll d hw ?m1"
    using b by (subst Write_poll_unfold) simp
  with Suc.IH[OF 1 2] show ?case by simp
qed

lemma Write_poll_Some:
  assumes "Write_poll d hw m = Some m'"
  shows "\<exists>n. (\<forall>i<n. \<not> bit (uts_value d hw i m) 6) \<and> bit (uts_value d hw n m) 6 \<and>
             m' = Write_polls d hw (Suc n) m"
proof (rule Write_poll.raw_induct
    [where P = "\<lambda>d hw m m'. \<exists>n. (\<forall>i<n. \<not> bit (uts_value d hw i m) 6) \<and>
                   bit (uts_value d hw n m) 6 \<and> m' = Write_polls d hw (Suc n) m", OF _ assms])
  fix self d hw and m m' :: "'a machine"
  assume IH: "\<And>d hw m m'. self d hw m = Some m' \<Longrightarrow>
                \<exists>n. (\<forall>i<n. \<not> bit (uts_value d hw i m) 6) \<and>
                   bit (uts_value d hw n m) 6 \<and> m' = Write_polls d hw (Suc n) m"
    and step: "(case txEmpty d hw m of (b, m1) \<Rightarrow> if b then self d hw m1 else Some m1) = Some m'"
  let ?m1 = "snd (txEmpty d hw m)"
  show "\<exists>n. (\<forall>i<n. \<not> bit (uts_value d hw i m) 6) \<and> bit (uts_value d hw n m) 6 \<and>
             m' = Write_polls d hw (Suc n) m"
  proof (cases "fst (txEmpty d hw m)")
    case True
    with step have "self d hw ?m1 = Some m'" by (simp split: prod.splits)
    from IH[OF this] obtain n where
      n: "\<forall>i<n. \<not> bit (uts_value d hw i ?m1) 6" "bit (uts_value d hw n ?m1) 6"
         "m' = Write_polls d hw (Suc n) ?m1" by blast
    from True have 0: "\<not> bit (uts_value d hw 0 m) 6" using busy_iff[of d hw 0 m] by simp
    have "\<forall>i<Suc n. \<not> bit (uts_value d hw i m) 6"
    proof (intro allI impI)
      fix i assume "i < Suc n"
      show "\<not> bit (uts_value d hw i m) 6"
      proof (cases i)
        case 0 with \<open>\<not> bit (uts_value d hw 0 m) 6\<close> show ?thesis by simp
      next
        case (Suc j)
        with \<open>i < Suc n\<close> n(1) show ?thesis by (simp add: uts_value_shift)
      qed
    qed
    moreover have "bit (uts_value d hw (Suc n) m) 6" using n(2) by (simp add: uts_value_shift)
    moreover have "m' = Write_polls d hw (Suc (Suc n)) m" using n(3) by simp
    ultimately show ?thesis by blast
  next
    case False
    with step have "m' = ?m1" by (simp split: prod.splits)
    moreover from False have "bit (uts_value d hw 0 m) 6" using busy_iff[of d hw 0 m] by simp
    ultimately have "(\<forall>i<0. \<not> bit (uts_value d hw i m) 6) \<and> bit (uts_value d hw 0 m) 6 \<and>
             m' = Write_polls d hw (Suc 0) m" by simp
    then show ?thesis by blast
  qed
qed


text \<open>
  C7. \<open>Write\<close> first stores the byte, zero-extended, to the transmit-data register UTXD
  and then polls the status register UTS. It returns exactly when some poll reads the
  transmit-empty bit (bit 6) as 1 after all earlier polls read it as 0, and then it
  returns right after that poll; it never returns when every poll reads the bit as 0.
  So in the trace of a call that returned, the store to UTXD comes first, every poll but
  the last read the bit as 0, and the last read it as 1.
\<close>

theorem Write_blocks_until_empty:
  "((Write d hw c m = Some m') =
      (\<exists>n. (\<forall>i<n. \<not> bit (uts_value d hw i (reg_Write d (utxd hw) (ucast c) m)) UTS_TXEMPTY) \<and>
           bit (uts_value d hw n (reg_Write d (utxd hw) (ucast c) m)) UTS_TXEMPTY \<and>
           m' = Write_polls d hw (Suc n) (reg_Write d (utxd hw) (ucast c) m))) \<and>
   ((Write d hw c m = None) =
      (\<forall>n. \<not> bit (uts_value d hw n (reg_Write d (utxd hw) (ucast c) m)) UTS_TXEMPTY)) \<and>
   (Write d hw c m = Some m' \<longrightarrow>
      (\<exists>vs v. trace m' = trace m @ [Store32 (utxd hw) (ucast c)] @
                          map (Load32 (uts hw)) vs @ [Load32 (uts hw) v] \<and>
              (\<forall>x\<in>set vs. \<not> bit x UTS_TXEMPTY) \<and> bit v UTS_TXEMPTY))"
proof -
  let ?m0 = "reg_Write d (utxd hw) (ucast c) m"
  let ?val = "\<lambda>i. uts_value d hw i ?m0"
  have A: "(Write d hw c m = Some m') =
      (\<exists>n. (\<forall>i<n. \<not> bit (?val i) 6) \<and> bit (?val n) 6 \<and> m' = Write_polls d hw (Suc n) ?m0)"
    for m'
    unfolding Write_def using Write_poll_Some[of d hw ?m0 m'] Write_poll_returns[of _ d hw ?m0]
    by blast
  have B: "(Write d hw c m = None) = (\<forall>n. \<not> bit (?val n) 6)"
  proof
    assume none: "Write d hw c m = None"
    show "\<forall>n. \<not> bit (?val n) 6"
    proof (rule ccontr)
      assume "\<not> (\<forall>n. \<not> bit (?val n) 6)"
      then have "\<exists>n. bit (?val n) 6" by blast
      then obtain n where "bit (?val n) 6" "\<forall>i<n. \<not> bit (?val i) 6"
        using exists_least_iff[of "\<lambda>n. bit (?val n) 6"] by blast
      with A[of "Write_polls d hw (Suc n) ?m0"] none show False by auto
    qed
  next
    assume all: "\<forall>n. \<not> bit (?val n) 6"
    show "Write d hw c m = None"
    proof (cases "Write d hw c m")
      case None then show ?thesis .
    next
      case (Some m1)
      with A[of m1] all show ?thesis by blast
    qed
  qed
  have C: "\<exists>vs v. trace m' = trace m @ [Store32 (utxd hw) (ucast c)] @
                          map (Load32 (uts hw)) vs @ [Load32 (uts hw) v] \<and>
              (\<forall>x\<in>set vs. \<not> bit x 6) \<and> bit v 6"
    if "Write d hw c m = Some m'"
  proof -
    from that A[of m'] obtain n where
      n: "\<forall>i<n. \<not> bit (?val i) 6" "bit (?val n) 6" "m' = Write_polls d hw (Suc n) ?m0"
      by blast
    let ?vs = "map ?val [0..<n]"
    have "trace m' = trace m @ [Store32 (utxd hw) (ucast c)] @
                          map (Load32 (uts hw)) ?vs @ [Load32 (uts hw) (?val n)]"
      unfolding n(3) Write_polls_trace by (simp add: comp_def)
    moreover have "\<forall>x\<in>set ?vs. \<not> bit x 6" using n(1) by auto
    ultimately show ?thesis using n(2) by blast
  qed
  from A[of m'] B C show ?thesis by simp
qed

theorem Write_blocks_until_empty_witness:
  "Write replay_dev console 0x41 \<lparr>regs = [0, 0, 0x40], trace = []\<rparr> =
     Some \<lparr>regs = [],
           trace = [Store32 0x021e8040 0x41, Load32 0x021e80b4 0, Load32 0x021e80b4 0,
                    Load32 0x021e80b4 0x40]\<rparr>"
proof -
  let ?M = "\<lparr>regs = [0, 0, 0x40::u32], trace = []\<rparr>"
  let ?W = "reg_Write replay_dev (utxd console) 0x41 ?M"
  have e: "(ucast (0x41::u8) :: u32) = 0x41" by simp
  have p: "Write_polls replay_dev console (Suc (Suc (Suc 0))) ?W =
           \<lparr>regs = [],
            trace = [Store32 0x021e8040 0x41, Load32 0x021e80b4 0, Load32 0x021e80b4 0,
                     Load32 0x021e80b4 0x40]\<rparr>"
    by (simp add: reg_Write_def txEmpty_def reg_Get_def reg_Read_def replay_simps console_def)
  have v0: "uts_value replay_dev console 0 ?W = 0"
    by (simp add: uts_value_def reg_Write_def replay_simps)
  have v1: "uts_value replay_dev console (Suc 0) ?W = 0"
    by (simp add: uts_value_def reg_Write_def txEmpty_def reg_Get_def reg_Read_def replay_simps)
  have v2: "uts_value replay_dev console (Suc (Suc 0)) ?W = 0x40"
    by (simp add: uts_value_def reg_Write_def txEmpty_def reg_Get_def reg_Read_def replay_simps)
  have busy: "\<forall>i<Suc (Suc 0). \<not> bit (uts_value replay_dev console i ?W) UTS_TXEMPTY"
    by (simp add: less_Suc_eq v0 v1)
  have empty: "bit (uts_value replay_dev console (Suc (Suc 0)) ?W) UTS_TXEMPTY"
    by (simp add: v2 bit_iff_odd_drop_bit)
  note T = Write_blocks_until_empty[of replay_dev console "0x41" ?M
        "Write_polls replay_dev console (Suc (Suc (Suc 0))) ?W", THEN conjunct1, unfolded e]
  have "Write replay_dev console 0x41 ?M =
               Some (Write_polls replay_dev console (Suc (Suc (Suc 0))) ?W)"
    apply (rule iffD2[OF T])
    apply (rule exI[of _ "Suc (Suc 0)"])
    apply (intro conjI)
      apply (rule busy)
     apply (rule empty)
    apply (rule refl)
    done
  then show ?thesis by (simp only: p)
qed

end
